theory Spec2Isabelle
  imports Complex_Main "HOL-Library.Word" "HOL-Library.AList" "HOL-Library.Sublist"
begin

unbundle bit_operations_syntax

section \<open>Strings of the host language\<close>

text \<open>
  A JavaScript string is a sequence of UTF-16 code units: \<open>s.length\<close> counts code units,
  \<open>s.slice\<close> cuts between them and \<open>s.charCodeAt(i)\<close> reads one as a number below
  \<open>65536\<close>. The literals of the source are ASCII; \<open>lit\<close> turns an Isabelle string
  literal into the string of its code units.
\<close>

type_synonym jsstring = "16 word list"

definition lit :: "string \<Rightarrow> jsstring" where
  "lit s = map (\<lambda>c. of_nat (of_char c)) s"

text \<open>\<open>s.startsWith(p)\<close>.\<close>

definition startsWith :: "jsstring \<Rightarrow> jsstring \<Rightarrow> bool" where
  "startsWith s p = (take (length p) s = p)"

text \<open>
  \<open>s.slice(a, b)\<close> for \<open>0 \<le> a \<le> b\<close>: both ends are clamped to the length, which
  \<open>take\<close> and \<open>drop\<close> do.
\<close>

definition slice :: "'a list \<Rightarrow> nat \<Rightarrow> nat \<Rightarrow> 'a list" where
  "slice s a b = take (b - a) (drop a s)"

text \<open>
  \<open>String(n)\<close> and \<open>n.toString(radix)\<close> of a non-negative integer \<open>n\<close>: the digits
  \<open>0..9a..z\<close>, most significant first, a single \<open>0\<close> for zero.
\<close>

definition digitChar :: "nat \<Rightarrow> 16 word" where
  "digitChar d = (if d < 10 then of_nat (48 + d) else of_nat (87 + d))"

function toStringRadix :: "nat \<Rightarrow> nat \<Rightarrow> jsstring" where
  "toStringRadix radix n =
     (if radix < 2 \<or> n < radix then [digitChar n]
      else toStringRadix radix (n div radix) @ [digitChar (n mod radix)])"
  by pat_completeness auto
termination
  by (relation "measure (\<lambda>(radix, n). n)") auto

definition numberToString :: "nat \<Rightarrow> jsstring" where
  "numberToString n = toStringRadix 10 n"

section \<open>Errors (src/utils/errors.ts)\<close>

datatype operation = compress_op | decompress_op

text \<open>
  The six error classes of the library, each with the arguments of its constructor, and
  \<open>NativeError\<close> for every exception that is none of them: the \<open>Error\<close> a backing
  node throws and the \<open>TypeError\<close>, \<open>RangeError\<close> or \<open>SyntaxError\<close> of the platform.
\<close>

datatype error =
    DataTooLargeError nat
  | QuotaExceededError nat int
  | EntryTooLargeError nat nat
  | DataCorruptedError jsstring
  | InvalidKeyError jsstring
  | CompressionError operation
  | NativeError

type_synonym 'a result = "error + 'a"

section \<open>ChunkManager (src/core/ChunkManager.ts)\<close>

definition CHUNK_SIZE :: nat where
  "CHUNK_SIZE = 85 * 1024"

definition MAX_ENTRY_SIZE :: nat where
  "MAX_ENTRY_SIZE = 100 * 1024"

text \<open>
  The loop \<open>for (let i = 0; i < data.length; i += step) chunks.push(data.slice(i, i + step))\<close>,
  with the loop variable and the array built so far as arguments. Compressor's
  \<open>uint8ArrayToBase64\<close> runs the same loop over a byte array with its own step.
\<close>

function sliceLoop :: "nat \<Rightarrow> 'a list \<Rightarrow> nat \<Rightarrow> 'a list list \<Rightarrow> 'a list list" where
  "sliceLoop step data i chunks =
     (if step = 0 then chunks
      else if i < length data
        then sliceLoop step data (i + step) (chunks @ [slice data i (i + step)])
        else chunks)"
  by pat_completeness auto
termination
  by (relation "measure (\<lambda>(step, data, i, chunks). length data - i)") auto

text \<open>\<open>chunk(data).chunks\<close>; the \<open>totalSize\<close> field is \<open>data.length\<close>.\<close>

definition chunk :: "jsstring \<Rightarrow> jsstring list" where
  "chunk data = sliceLoop CHUNK_SIZE data 0 []"

definition chunkTotalSize :: "jsstring \<Rightarrow> nat" where
  "chunkTotalSize data = length data"

definition calculateChunkKey :: "jsstring \<Rightarrow> nat \<Rightarrow> jsstring" where
  "calculateChunkKey baseKey index =
     lit ''__fpdu_chunk_'' @ baseKey @ lit ''_'' @ numberToString index"

definition validateChunkEntry :: "jsstring \<Rightarrow> jsstring \<Rightarrow> unit result" where
  "validateChunkEntry key chunk' =
     (let entrySize = length key + length chunk' in
      if entrySize > MAX_ENTRY_SIZE then Inl (EntryTooLargeError entrySize MAX_ENTRY_SIZE)
      else Inr ())"

text \<open>
  \<open>getSafeChunkSize\<close>: a JavaScript subtraction, so the result is negative when the key
  alone is longer than an entry.
\<close>

definition getSafeChunkSize :: "jsstring \<Rightarrow> int" where
  "getSafeChunkSize baseKey =
     (let longestPossibleKey = calculateChunkKey baseKey 999;
          keyOverhead = length longestPossibleKey
      in int MAX_ENTRY_SIZE - int keyOverhead)"

section \<open>IntegrityValidator (src/core/IntegrityValidator.ts)\<close>

text \<open>
  One round of the checksum loop: \<open>hash = ((hash << 5) - hash) + char; hash = hash & hash\<close>.
  Both \<open><<\<close> and \<open>&\<close> yield a signed 32-bit integer and the subtraction and
  addition between them are exact, so \<open>hash\<close> is a 32-bit word whose arithmetic wraps.
\<close>

definition checksumStep :: "32 word \<Rightarrow> 16 word \<Rightarrow> 32 word" where
  "checksumStep hash char = (let hash' = (push_bit 5 hash - hash) + ucast char in hash' AND hash')"

text \<open>\<open>Math.abs(hash).toString(36)\<close> of the hash read as a signed integer.\<close>

definition calculateChecksum :: "jsstring \<Rightarrow> jsstring" where
  "calculateChecksum data =
     toStringRadix 36 (nat \<bar>sint (fold (\<lambda>char hash. checksumStep hash char) data 0)\<bar>)"

section \<open>Values of the host language\<close>

text \<open>
  A number of the host language is a finite value, one of the two infinities or
  \<open>NaN\<close>. The finite values are the doubles; the model takes them from the rationals,
  which hold every double, and does not keep the sign of zero.
\<close>

datatype jsnumber = Finite rat | PosInfinity | NegInfinity | NaN

text \<open>
  The values a caller can store and \<open>JSON.parse\<close> can return (it reads \<open>1e999\<close> as
  \<open>Infinity\<close>). \<open>JBigInt\<close> is a value outside JSON's data model: \<open>JSON.stringify\<close>
  throws a \<open>TypeError\<close> on it. The value \<open>undefined\<close> of a missing property is
  \<open>None\<close> of \<open>jsvalue option\<close>.
\<close>

datatype jsvalue =
    JNull
  | JBool bool
  | JNum jsnumber
  | JStr jsstring
  | JArr "jsvalue list"
  | JObj "(jsstring \<times> jsvalue) list"
  | JBigInt int

text \<open>
  \<open>v.name\<close>: a \<open>TypeError\<close> on \<open>null\<close>, the property's value on an object that
  has it, \<open>undefined\<close> otherwise (none of the names read here is a property of a
  string, a number, a boolean or an array).
\<close>

definition getProp :: "jsvalue \<Rightarrow> jsstring \<Rightarrow> jsvalue option result" where
  "getProp v name =
     (case v of
        JNull \<Rightarrow> Inl NativeError
      | JObj members \<Rightarrow> Inr (map_of members name)
      | _ \<Rightarrow> Inr None)"

text \<open>The truth value of \<open>v\<close> in a condition.\<close>

definition truthy :: "jsvalue option \<Rightarrow> bool" where
  "truthy v =
     (case v of
        None \<Rightarrow> False
      | Some JNull \<Rightarrow> False
      | Some (JBool b) \<Rightarrow> b
      | Some (JNum n) \<Rightarrow> (case n of Finite x \<Rightarrow> x \<noteq> 0 | NaN \<Rightarrow> False | _ \<Rightarrow> True)
      | Some (JStr s) \<Rightarrow> s \<noteq> []
      | Some (JBigInt n) \<Rightarrow> n \<noteq> 0
      | Some _ \<Rightarrow> True)"

text \<open>\<open>validate(data, expectedChecksum)\<close>: strict equality with the computed string.\<close>

definition validate :: "jsstring \<Rightarrow> jsvalue option \<Rightarrow> bool" where
  "validate data expectedChecksum = (Some (JStr (calculateChecksum data)) = expectedChecksum)"

section \<open>The platform\<close>

text \<open>
  What the library calls and does not define: \<open>TextEncoder\<close>, \<open>TextDecoder\<close>,
  fflate's \<open>gzipSync\<close>, \<open>gunzipSync\<close>, \<open>gzip\<close> and \<open>gunzip\<close> (the last two hand
  their result to a callback), \<open>btoa\<close>, \<open>atob\<close>, the size of a \<open>Blob\<close> of one
  string, \<open>JSON.stringify\<close>, \<open>JSON.parse\<close>, and the conversion to a number that
  \<open><\<close> applies to a string, an array or an object. \<open>None\<close> is a thrown exception
  (for \<open>gzip\<close> and \<open>gunzip\<close>: an error handed to the callback).
\<close>

record host =
  textEncode :: "jsstring \<Rightarrow> 8 word list"
  textDecode :: "8 word list \<Rightarrow> jsstring"
  gzipSync :: "8 word list \<Rightarrow> 8 word list option"
  gunzipSync :: "8 word list \<Rightarrow> 8 word list option"
  gzip :: "8 word list \<Rightarrow> 8 word list option"
  gunzip :: "8 word list \<Rightarrow> 8 word list option"
  btoa :: "jsstring \<Rightarrow> jsstring option"
  atob :: "jsstring \<Rightarrow> jsstring option"
  blobSize :: "jsstring \<Rightarrow> nat"
  JSON_stringify :: "jsvalue \<Rightarrow> jsstring option"
  JSON_parse :: "jsstring \<Rightarrow> jsvalue option"
  toNumber :: "jsvalue \<Rightarrow> jsnumber"

section \<open>Compressor (src/core/Compressor.ts)\<close>

definition COMPRESSOR_CHUNK_SIZE :: nat where
  "COMPRESSOR_CHUNK_SIZE = 65536"

text \<open>
  \<open>uint8ArrayToBase64\<close>: the array is cut into slices, each slice becomes the string of
  its bytes (\<open>String.fromCharCode(...chunk)\<close>), and \<open>btoa\<close> encodes their join.
\<close>

definition uint8ArrayToBase64 :: "host \<Rightarrow> 8 word list \<Rightarrow> jsstring option" where
  "uint8ArrayToBase64 h array =
     (let chunks = map (map ucast) (sliceLoop COMPRESSOR_CHUNK_SIZE array 0 [])
      in btoa h (concat chunks))"

text \<open>Every exception inside \<open>compress\<close> is caught and replaced.\<close>

definition compress :: "host \<Rightarrow> jsstring \<Rightarrow> jsstring result" where
  "compress h data =
     (let input = textEncode h data in
      case gzipSync h input of
        None \<Rightarrow> Inl (CompressionError compress_op)
      | Some compressed \<Rightarrow>
          (case uint8ArrayToBase64 h compressed of
             None \<Rightarrow> Inl (CompressionError compress_op)
           | Some s \<Rightarrow> Inr s))"

definition decompress :: "host \<Rightarrow> jsstring \<Rightarrow> jsstring result" where
  "decompress h data =
     (case atob h data of
        None \<Rightarrow> Inl (CompressionError decompress_op)
      | Some binary \<Rightarrow>
          (case gunzipSync h (map ucast binary) of
             None \<Rightarrow> Inl (CompressionError decompress_op)
           | Some decompressed \<Rightarrow> Inr (textDecode h decompressed)))"

text \<open>
  The suspending forms await fflate's callback functions; a rejected promise is caught
  by the same \<open>catch\<close>.
\<close>

definition compressAsync :: "host \<Rightarrow> jsstring \<Rightarrow> jsstring result" where
  "compressAsync h data =
     (let input = textEncode h data in
      case gzip h input of
        None \<Rightarrow> Inl (CompressionError compress_op)
      | Some compressed \<Rightarrow>
          (case uint8ArrayToBase64 h compressed of
             None \<Rightarrow> Inl (CompressionError compress_op)
           | Some s \<Rightarrow> Inr s))"

definition decompressAsync :: "host \<Rightarrow> jsstring \<Rightarrow> jsstring result" where
  "decompressAsync h data =
     (case atob h data of
        None \<Rightarrow> Inl (CompressionError decompress_op)
      | Some binary \<Rightarrow>
          (case gunzip h (map ucast binary) of
             None \<Rightarrow> Inl (CompressionError decompress_op)
           | Some decompressed \<Rightarrow> Inr (textDecode h decompressed)))"

section \<open>GlobalQuotaManager (src/core/GlobalQuotaManager.ts)\<close>

text \<open>
  The static \<open>usage\<close> map, node id to key to bytes. A JavaScript \<open>Map\<close> keeps its
  entries in insertion order, \<open>set\<close> on a present key replaces the value in place and
  \<open>delete\<close> removes the entry: an association list with \<open>AList.update\<close> and
  \<open>AList.delete\<close>.
\<close>

type_synonym ledger = "(jsstring \<times> (jsstring \<times> nat) list) list"

definition MAX_TOTAL_QUOTA :: nat where
  "MAX_TOTAL_QUOTA = 5 * 1024 * 1024"

definition getCurrentUsage :: "ledger \<Rightarrow> nat" where
  "getCurrentUsage usage = sum_list (map (\<lambda>(nodeId, nodeUsage). sum_list (map snd nodeUsage)) usage)"

definition getRemainingQuota :: "ledger \<Rightarrow> int" where
  "getRemainingQuota usage = int MAX_TOTAL_QUOTA - int (getCurrentUsage usage)"

definition canStore :: "ledger \<Rightarrow> nat \<Rightarrow> bool" where
  "canStore usage sizeBytes = (getCurrentUsage usage + sizeBytes \<le> MAX_TOTAL_QUOTA)"

definition recordUsage :: "ledger \<Rightarrow> jsstring \<Rightarrow> jsstring \<Rightarrow> nat \<Rightarrow> ledger" where
  "recordUsage usage nodeId key bytes =
     (let usage' = (if map_of usage nodeId = None then AList.update nodeId [] usage else usage) in
      case map_of usage' nodeId of
        None \<Rightarrow> usage'
      | Some nodeUsage \<Rightarrow> AList.update nodeId (AList.update key bytes nodeUsage) usage')"

definition removeUsage :: "ledger \<Rightarrow> jsstring \<Rightarrow> jsstring \<Rightarrow> ledger" where
  "removeUsage usage nodeId key =
     (case map_of usage nodeId of
        None \<Rightarrow> usage
      | Some nodeUsage \<Rightarrow>
          (let nodeUsage' = AList.delete key nodeUsage in
           if length nodeUsage' = 0 then AList.delete nodeId usage
           else AList.update nodeId nodeUsage' usage))"

definition validateEntrySize :: "jsstring \<Rightarrow> jsstring \<Rightarrow> unit result" where
  "validateEntrySize key value =
     (let entrySize = length key + length value in
      if entrySize > MAX_ENTRY_SIZE then Inl (EntryTooLargeError entrySize MAX_ENTRY_SIZE)
      else Inr ())"

text \<open>\<open>nodeUsage?.get(key) || 0\<close>.\<close>

definition getKeyUsage :: "ledger \<Rightarrow> jsstring \<Rightarrow> jsstring \<Rightarrow> nat" where
  "getKeyUsage usage nodeId key =
     (case map_of usage nodeId of
        None \<Rightarrow> 0
      | Some nodeUsage \<Rightarrow> (case map_of nodeUsage key of None \<Rightarrow> 0 | Some bytes \<Rightarrow> bytes))"

section \<open>The backing node (createMockNode, tests/setup.ts)\<close>

text \<open>
  The node of the test suite: a \<open>Map\<close> of records and a running byte count. A write
  of more than 100KB is refused before anything changes; a write that leaves the byte
  count above 1MB throws after the record has been written. Writing the empty string
  deletes the record, and a missing record reads as the empty string.
\<close>

record mock_node =
  node_id :: jsstring
  storage :: "(jsstring \<times> jsstring) list"
  nodeUsage :: int

definition node_getPluginData :: "mock_node \<Rightarrow> jsstring \<Rightarrow> jsstring" where
  "node_getPluginData nd key = (case map_of (storage nd) key of None \<Rightarrow> [] | Some value \<Rightarrow> value)"

definition node_setPluginData :: "mock_node \<Rightarrow> jsstring \<Rightarrow> jsstring \<Rightarrow> unit result \<times> mock_node" where
  "node_setPluginData nd key value =
     (let entrySize = length key + length value in
      if entrySize > 100 * 1024 then (Inl NativeError, nd)
      else
        let oldValue = (case map_of (storage nd) key of None \<Rightarrow> [] | Some v \<Rightarrow> v);
            oldEntrySize = length key + length oldValue;
            nd' = (if value = []
                   then nd\<lparr>storage := AList.delete key (storage nd),
                          nodeUsage := nodeUsage nd - int oldEntrySize\<rparr>
                   else nd\<lparr>storage := AList.update key value (storage nd),
                          nodeUsage := nodeUsage nd - int oldEntrySize + int entrySize\<rparr>)
        in if nodeUsage nd' > 1024 * 1024 then (Inl NativeError, nd') else (Inr (), nd'))"

definition node_getPluginDataKeys :: "mock_node \<Rightarrow> jsstring list" where
  "node_getPluginDataKeys nd = map fst (storage nd)"

section \<open>PluginData (src/PluginData.ts): the direct form\<close>

text \<open>
  What a \<open>PluginData\<close> object works on: its node and the process-wide quota table.
  A method that writes returns its outcome and the state it leaves, also when it throws.
\<close>

record world =
  node :: mock_node
  usage :: ledger

definition metadataKeyOf :: "jsstring \<Rightarrow> jsstring" where
  "metadataKeyOf key = lit ''__fpdu_meta_'' @ key"

definition singleMetadata :: "host \<Rightarrow> jsstring \<Rightarrow> jsvalue" where
  "singleMetadata h originalData =
     JObj [(lit ''compressed'', JBool True),
           (lit ''checksum'', JStr (calculateChecksum originalData)),
           (lit ''size'', JNum (Finite (of_nat (blobSize h originalData))))]"

definition chunkedMetadata :: "host \<Rightarrow> jsstring list \<Rightarrow> jsstring \<Rightarrow> jsvalue" where
  "chunkedMetadata h chunks original =
     JObj [(lit ''compressed'', JBool True),
           (lit ''chunked'', JBool True),
           (lit ''totalChunks'', JNum (Finite (of_nat (length chunks)))),
           (lit ''checksum'', JStr (calculateChecksum original)),
           (lit ''size'', JNum (Finite (of_nat (blobSize h original))))]"

definition storeSingle :: "host \<Rightarrow> jsstring \<Rightarrow> jsstring \<Rightarrow> jsstring \<Rightarrow> world \<Rightarrow> unit result \<times> world" where
  "storeSingle h key compressed originalData w =
     (case JSON_stringify h (singleMetadata h originalData) of
        None \<Rightarrow> (Inl NativeError, w)
      | Some metadataStr \<Rightarrow>
          (let metadataKey = metadataKeyOf key in
           case validateEntrySize key compressed of
             Inl e \<Rightarrow> (Inl e, w)
           | Inr _ \<Rightarrow>
               (case validateEntrySize metadataKey metadataStr of
                  Inl e \<Rightarrow> (Inl e, w)
                | Inr _ \<Rightarrow>
                    (case node_setPluginData (node w) key compressed of
                       (Inl e, nd1) \<Rightarrow> (Inl e, w\<lparr>node := nd1\<rparr>)
                     | (Inr _, nd1) \<Rightarrow>
                         (case node_setPluginData nd1 metadataKey metadataStr of
                            (Inl e, nd2) \<Rightarrow> (Inl e, w\<lparr>node := nd2\<rparr>)
                          | (Inr _, nd2) \<Rightarrow>
                              (let totalUsage = length compressed + length metadataKey + length metadataStr
                               in (Inr (), \<lparr>node = nd2,
                                     usage = recordUsage (usage w) (node_id nd2) key totalUsage\<rparr>)))))))"

text \<open>
  The \<open>forEach\<close> of \<open>storeChunked\<close>, with the index and the running \<open>totalUsage\<close> as
  arguments; an exception ends it.
\<close>

fun storeChunks :: "mock_node \<Rightarrow> jsstring \<Rightarrow> jsstring list \<Rightarrow> nat \<Rightarrow> nat \<Rightarrow> nat result \<times> mock_node" where
  "storeChunks nd key [] index totalUsage = (Inr totalUsage, nd)"
| "storeChunks nd key (c # rest) index totalUsage =
     (let chunkKey = calculateChunkKey key index in
      case validateChunkEntry chunkKey c of
        Inl e \<Rightarrow> (Inl e, nd)
      | Inr _ \<Rightarrow>
          (case node_setPluginData nd chunkKey c of
             (Inl e, nd') \<Rightarrow> (Inl e, nd')
           | (Inr _, nd') \<Rightarrow>
               storeChunks nd' key rest (index + 1) (totalUsage + (length chunkKey + length c))))"

definition storeChunked :: "host \<Rightarrow> jsstring \<Rightarrow> jsstring \<Rightarrow> jsstring \<Rightarrow> world \<Rightarrow> unit result \<times> world" where
  "storeChunked h key compressed original w =
     (let chunks = chunk compressed in
      case storeChunks (node w) key chunks 0 0 of
        (Inl e, nd1) \<Rightarrow> (Inl e, w\<lparr>node := nd1\<rparr>)
      | (Inr totalUsage, nd1) \<Rightarrow>
          (case JSON_stringify h (chunkedMetadata h chunks original) of
             None \<Rightarrow> (Inl NativeError, w\<lparr>node := nd1\<rparr>)
           | Some metadataStr \<Rightarrow>
               (let metadataKey = metadataKeyOf key in
                case validateEntrySize metadataKey metadataStr of
                  Inl e \<Rightarrow> (Inl e, w\<lparr>node := nd1\<rparr>)
                | Inr _ \<Rightarrow>
                    (case node_setPluginData nd1 metadataKey metadataStr of
                       (Inl e, nd2) \<Rightarrow> (Inl e, w\<lparr>node := nd2\<rparr>)
                     | (Inr _, nd2) \<Rightarrow>
                         (let totalUsage' = totalUsage + (length metadataKey + length metadataStr)
                          in (Inr (), \<lparr>node = nd2,
                                usage = recordUsage (usage w) (node_id nd2) key totalUsage'\<rparr>))))))"

text \<open>
  The \<open>catch\<close> of \<open>setPluginData\<close>: a \<open>QuotaExceededError\<close> or an
  \<open>EntryTooLargeError\<close> is thrown again, anything else becomes
  \<open>CompressionError('compress')\<close>.
\<close>

definition rethrowWrite :: "error \<Rightarrow> error" where
  "rethrowWrite e =
     (case e of
        QuotaExceededError needed remaining \<Rightarrow> e
      | EntryTooLargeError entrySize maxSize \<Rightarrow> e
      | _ \<Rightarrow> CompressionError compress_op)"

text \<open>The \<open>try\<close> block of \<open>setPluginData\<close>, from the serialized \<open>data\<close> on.\<close>

definition setPluginDataTry :: "host \<Rightarrow> jsstring \<Rightarrow> jsstring \<Rightarrow> world \<Rightarrow> unit result \<times> world" where
  "setPluginDataTry h key data w =
     (case compress h data of
        Inl e \<Rightarrow> (Inl e, w)
      | Inr compressed \<Rightarrow>
          (let estimatedSize = length compressed + 200 in
           if \<not> canStore (usage w) estimatedSize
           then (Inl (QuotaExceededError estimatedSize (getRemainingQuota (usage w))), w)
           else
             let oldUsage = getKeyUsage (usage w) (node_id (node w)) key;
                 w1 = (if oldUsage > 0
                       then w\<lparr>usage := removeUsage (usage w) (node_id (node w)) key\<rparr>
                       else w);
                 maxChunkSize = getSafeChunkSize key
             in if int (length compressed) > maxChunkSize
                then storeChunked h key compressed data w1
                else storeSingle h key compressed data w1))"

text \<open>
  \<open>typeof value === 'string' ? value : JSON.stringify(value)\<close>; \<open>None\<close> when
  \<open>JSON.stringify\<close> throws.
\<close>

definition serialize :: "host \<Rightarrow> jsvalue \<Rightarrow> jsstring option" where
  "serialize h value = (case value of JStr s \<Rightarrow> Some s | _ \<Rightarrow> JSON_stringify h value)"

definition MAX_DATA_SIZE :: nat where
  "MAX_DATA_SIZE = 5 * 1024 * 1024"

definition setPluginData :: "host \<Rightarrow> jsstring \<Rightarrow> jsvalue \<Rightarrow> world \<Rightarrow> unit result \<times> world" where
  "setPluginData h key value w =
     (if key = [] \<or> startsWith key (lit ''__fpdu_'') then (Inl (InvalidKeyError key), w)
      else
        case serialize h value of
          None \<Rightarrow> (Inl NativeError, w)
        | Some data \<Rightarrow>
            (let size = blobSize h data in
             if size > MAX_DATA_SIZE then (Inl (DataTooLargeError size), w)
             else
               case setPluginDataTry h key data w of
                 (Inl e, w') \<Rightarrow> (Inl (rethrowWrite e), w')
               | (Inr u, w') \<Rightarrow> (Inr u, w')))"

text \<open>\<open>try { return JSON.parse(decompressed) } catch { return decompressed }\<close>.\<close>

definition decodeValue :: "host \<Rightarrow> jsstring \<Rightarrow> jsvalue" where
  "decodeValue h decompressed =
     (case JSON_parse h decompressed of Some v \<Rightarrow> v | None \<Rightarrow> JStr decompressed)"

text \<open>
  \<open>i < v\<close> for a loop counter \<open>i\<close>. The right side is made a number first:
  \<open>undefined\<close> gives \<open>NaN\<close>, \<open>null\<close> gives 0, a boolean 0 or 1, a \<open>BigInt\<close> is
  compared by its value, and the platform converts a string, an array or an object.
  Nothing is below \<open>NaN\<close>.
\<close>

definition toNumeric :: "host \<Rightarrow> jsvalue option \<Rightarrow> jsnumber" where
  "toNumeric h v =
     (case v of
        None \<Rightarrow> NaN
      | Some JNull \<Rightarrow> Finite 0
      | Some (JBool b) \<Rightarrow> Finite (if b then 1 else 0)
      | Some (JNum n) \<Rightarrow> n
      | Some (JBigInt n) \<Rightarrow> Finite (of_int n)
      | Some x \<Rightarrow> toNumber h x)"

definition below :: "nat \<Rightarrow> jsnumber \<Rightarrow> bool" where
  "below i x =
     (case x of
        Finite r \<Rightarrow> of_nat i < r
      | PosInfinity \<Rightarrow> True
      | NegInfinity \<Rightarrow> False
      | NaN \<Rightarrow> False)"

text \<open>
  \<open>i++\<close>. The counter is a double: every integer up to \<open>2^53\<close> is one, \<open>2^53 + 1\<close> is
  not, and the sum rounds back to \<open>2^53\<close>.
\<close>

definition increment :: "nat \<Rightarrow> nat" where
  "increment i = (if i < 2 ^ 53 then i + 1 else i)"

text \<open>
  An array has at most \<open>2^32 - 1\<close> elements: \<open>push\<close> on an array of that length
  throws a \<open>RangeError\<close>.
\<close>

definition MAX_ARRAY_LENGTH :: nat where
  "MAX_ARRAY_LENGTH = 2 ^ 32 - 1"

text \<open>
  The loop of \<open>retrieveChunked\<close>, with the counter and the array built so far as
  arguments. It ends: every round that does not throw makes the array longer.
\<close>

function retrieveChunks :: "host \<Rightarrow> mock_node \<Rightarrow> jsstring \<Rightarrow> jsvalue option \<Rightarrow> nat \<Rightarrow> jsstring list \<Rightarrow> jsstring list result" where
  "retrieveChunks h nd key totalChunks i chunks =
     (if below i (toNumeric h totalChunks)
      then (let chunkKey = calculateChunkKey key i;
                chunk' = node_getPluginData nd chunkKey
            in if chunk' = [] then Inl (DataCorruptedError key)
               else if length chunks \<ge> MAX_ARRAY_LENGTH then Inl NativeError
               else retrieveChunks h nd key totalChunks (increment i) (chunks @ [chunk']))
      else Inr chunks)"
  by pat_completeness auto
termination
  by (relation "measure (\<lambda>(h, nd, key, totalChunks, i, chunks). MAX_ARRAY_LENGTH - length chunks)") auto

declare retrieveChunks.simps [simp del]

definition retrieveChunked :: "host \<Rightarrow> jsstring \<Rightarrow> jsvalue \<Rightarrow> mock_node \<Rightarrow> jsvalue result" where
  "retrieveChunked h key metadata nd =
     (case getProp metadata (lit ''totalChunks'') of
        Inl e \<Rightarrow> Inl e
      | Inr totalChunks \<Rightarrow>
          (case retrieveChunks h nd key totalChunks 0 [] of
             Inl e \<Rightarrow> Inl e
           | Inr chunks \<Rightarrow>
               (let compressed = concat chunks in
                case decompress h compressed of
                  Inl e \<Rightarrow> Inl e
                | Inr decompressed \<Rightarrow>
                    (case getProp metadata (lit ''checksum'') of
                       Inl e \<Rightarrow> Inl e
                     | Inr checksum \<Rightarrow>
                         if \<not> validate decompressed checksum then Inl (DataCorruptedError key)
                         else Inr (decodeValue h decompressed)))))"

text \<open>The \<open>try\<close> block of \<open>getPluginData\<close>, entered when the metadata record is not empty.\<close>

definition getPluginDataTry :: "host \<Rightarrow> jsstring \<Rightarrow> jsstring \<Rightarrow> mock_node \<Rightarrow> jsvalue result" where
  "getPluginDataTry h key metadataStr nd =
     (case JSON_parse h metadataStr of
        None \<Rightarrow> Inl NativeError
      | Some metadata \<Rightarrow>
          (case getProp metadata (lit ''chunked'') of
             Inl e \<Rightarrow> Inl e
           | Inr chunked \<Rightarrow>
               if truthy chunked then retrieveChunked h key metadata nd
               else
                 (let compressed = node_getPluginData nd key in
                  case decompress h compressed of
                    Inl e \<Rightarrow> Inl e
                  | Inr decompressed \<Rightarrow>
                      (case getProp metadata (lit ''checksum'') of
                         Inl e \<Rightarrow> Inl e
                       | Inr checksum \<Rightarrow>
                           if \<not> validate decompressed checksum then Inl (DataCorruptedError key)
                           else Inr (decodeValue h decompressed)))))"

text \<open>
  The \<open>catch\<close> of \<open>getPluginData\<close>: a \<open>DataCorruptedError\<close> is thrown again, anything
  else becomes a \<open>DataCorruptedError\<close> of the key.
\<close>

definition rethrowRead :: "jsstring \<Rightarrow> error \<Rightarrow> error" where
  "rethrowRead key e = (case e of DataCorruptedError k \<Rightarrow> e | _ \<Rightarrow> DataCorruptedError key)"

definition getPluginData :: "host \<Rightarrow> jsstring \<Rightarrow> world \<Rightarrow> jsvalue result" where
  "getPluginData h key w =
     (let metadataStr = node_getPluginData (node w) (metadataKeyOf key) in
      if metadataStr = [] then Inr (JStr (node_getPluginData (node w) key))
      else
        case getPluginDataTry h key metadataStr (node w) of
          Inl e \<Rightarrow> Inl (rethrowRead key e)
        | Inr v \<Rightarrow> Inr v)"

definition getPluginDataKeys :: "world \<Rightarrow> jsstring list" where
  "getPluginDataKeys w =
     filter (\<lambda>key. \<not> startsWith key (lit ''__fpdu_'')) (node_getPluginDataKeys (node w))"

text \<open>
  The loop of \<open>deletePluginData\<close>, with the counter as argument. Nothing but its
  condition or an exception ends it, so it may run forever: \<open>None\<close> is the call that
  does not return.
\<close>

partial_function (option) deleteChunks :: "host \<Rightarrow> mock_node \<Rightarrow> jsstring \<Rightarrow> jsvalue option \<Rightarrow> nat \<Rightarrow> (unit result \<times> mock_node) option" where
  "deleteChunks h nd key totalChunks i =
     (if below i (toNumeric h totalChunks)
      then (let chunkKey = calculateChunkKey key i in
            case node_setPluginData nd chunkKey [] of
              (Inl e, nd') \<Rightarrow> Some (Inl e, nd')
            | (Inr _, nd') \<Rightarrow> deleteChunks h nd' key totalChunks (increment i))
      else Some (Inr (), nd))"

text \<open>
  The \<open>try\<close> block of \<open>deletePluginData\<close> with its empty \<open>catch\<close>: whatever is thrown
  inside ends the block, and the node is left as it was at that moment.
\<close>

definition deleteManaged :: "host \<Rightarrow> jsstring \<Rightarrow> jsstring \<Rightarrow> mock_node \<Rightarrow> mock_node option" where
  "deleteManaged h key metadataStr nd =
     (case JSON_parse h metadataStr of
        None \<Rightarrow> Some nd
      | Some metadata \<Rightarrow>
          (case getProp metadata (lit ''chunked'') of
             Inl e \<Rightarrow> Some nd
           | Inr chunked \<Rightarrow>
               (case (if truthy chunked
                      then (case getProp metadata (lit ''totalChunks'') of
                              Inl e \<Rightarrow> Some (Inl e, nd)
                            | Inr totalChunks \<Rightarrow> deleteChunks h nd key totalChunks 0)
                      else Some (Inr (), nd)) of
                  None \<Rightarrow> None
                | Some (Inl e, nd1) \<Rightarrow> Some nd1
                | Some (Inr _, nd1) \<Rightarrow> Some (snd (node_setPluginData nd1 (metadataKeyOf key) [])))))"

definition deletePluginData :: "host \<Rightarrow> jsstring \<Rightarrow> world \<Rightarrow> (unit result \<times> world) option" where
  "deletePluginData h key w =
     (let metadataStr = node_getPluginData (node w) (metadataKeyOf key) in
      case (if metadataStr \<noteq> [] then deleteManaged h key metadataStr (node w) else Some (node w)) of
        None \<Rightarrow> None
      | Some nd1 \<Rightarrow>
          (case node_setPluginData nd1 key [] of
             (Inl e, nd2) \<Rightarrow> Some (Inl e, w\<lparr>node := nd2\<rparr>)
           | (Inr _, nd2) \<Rightarrow>
               Some (Inr (), \<lparr>node = nd2, usage = removeUsage (usage w) (node_id nd2) key\<rparr>)))"

section \<open>PluginData (src/PluginData.ts): the suspending form\<close>

text \<open>
  The suspending methods, run with nothing else scheduled between their steps. What
  differs from the direct form is \<open>Promise.all\<close>: every promise of the array has been
  created, and so every write has been attempted, before the first failure is looked at.
  A promise whose executor threw, or the promise of an \<open>async\<close> function that threw, is
  rejected when \<open>Promise.all\<close> subscribes to it; the promise of an \<open>async\<close> function
  that returned a rejected promise takes over the rejection some microtasks later.
  \<open>Promise.all\<close> rejects with the reason that reaches it first: that of the first
  promise of the array already rejected, or else that of the first rejected later.
\<close>

datatype settled = Fulfilled | RejectedAtOnce error | RejectedLater error

fun firstAtOnce :: "settled list \<Rightarrow> error option" where
  "firstAtOnce [] = None"
| "firstAtOnce (RejectedAtOnce e # ps) = Some e"
| "firstAtOnce (p # ps) = firstAtOnce ps"

fun firstLater :: "settled list \<Rightarrow> error option" where
  "firstLater [] = None"
| "firstLater (RejectedLater e # ps) = Some e"
| "firstLater (p # ps) = firstLater ps"

definition promiseAll :: "settled list \<Rightarrow> unit result" where
  "promiseAll ps =
     (case firstAtOnce ps of
        Some e \<Rightarrow> Inl e
      | None \<Rightarrow> (case firstLater ps of Some e \<Rightarrow> Inl e | None \<Rightarrow> Inr ()))"

text \<open>\<open>new Promise((resolve) => { write; resolve() })\<close>: the write runs in the constructor.\<close>

definition executorPromise :: "unit result \<Rightarrow> settled" where
  "executorPromise r = (case r of Inl e \<Rightarrow> RejectedAtOnce e | Inr _ \<Rightarrow> Fulfilled)"

definition storeSingleAsync :: "host \<Rightarrow> jsstring \<Rightarrow> jsstring \<Rightarrow> jsstring \<Rightarrow> world \<Rightarrow> unit result \<times> world" where
  "storeSingleAsync h key compressed originalData w =
     (case JSON_stringify h (singleMetadata h originalData) of
        None \<Rightarrow> (Inl NativeError, w)
      | Some metadataStr \<Rightarrow>
          (let metadataKey = metadataKeyOf key in
           case validateEntrySize key compressed of
             Inl e \<Rightarrow> (Inl e, w)
           | Inr _ \<Rightarrow>
               (case validateEntrySize metadataKey metadataStr of
                  Inl e \<Rightarrow> (Inl e, w)
                | Inr _ \<Rightarrow>
                    (case node_setPluginData (node w) key compressed of
                       (r1, nd1) \<Rightarrow>
                         (case node_setPluginData nd1 metadataKey metadataStr of
                            (r2, nd2) \<Rightarrow>
                              (case promiseAll [executorPromise r1, executorPromise r2] of
                                 Inl e \<Rightarrow> (Inl e, w\<lparr>node := nd2\<rparr>)
                               | Inr _ \<Rightarrow>
                                   (let totalUsage = length compressed + length metadataKey
                                                     + length metadataStr
                                    in (Inr (), \<lparr>node = nd2,
                                          usage = recordUsage (usage w) (node_id nd2) key totalUsage\<rparr>))))))))"

text \<open>
  \<open>chunks.chunks.map(async (chunk, index) => ...)\<close>: the callbacks run one after the
  other, each up to its \<open>return\<close> or its exception, and leave one promise each.
\<close>

fun storeChunksAsync :: "mock_node \<Rightarrow> jsstring \<Rightarrow> jsstring list \<Rightarrow> nat \<Rightarrow> settled list \<times> mock_node" where
  "storeChunksAsync nd key [] index = ([], nd)"
| "storeChunksAsync nd key (c # rest) index =
     (let chunkKey = calculateChunkKey key index in
      case validateChunkEntry chunkKey c of
        Inl e \<Rightarrow>
          (case storeChunksAsync nd key rest (index + 1) of
             (ps, nd') \<Rightarrow> (RejectedAtOnce e # ps, nd'))
      | Inr _ \<Rightarrow>
          (case node_setPluginData nd chunkKey c of
             (r, nd1) \<Rightarrow>
               (case storeChunksAsync nd1 key rest (index + 1) of
                  (ps, nd') \<Rightarrow>
                    ((case r of Inl e \<Rightarrow> RejectedLater e | Inr _ \<Rightarrow> Fulfilled) # ps, nd'))))"

text \<open>The second \<open>forEach\<close> of \<open>storeChunkedAsync\<close>, which adds up the usage.\<close>

fun chunksUsage :: "jsstring \<Rightarrow> jsstring list \<Rightarrow> nat \<Rightarrow> nat \<Rightarrow> nat" where
  "chunksUsage key [] index totalUsage = totalUsage"
| "chunksUsage key (c # rest) index totalUsage =
     chunksUsage key rest (index + 1) (totalUsage + (length (calculateChunkKey key index) + length c))"

definition storeChunkedAsync :: "host \<Rightarrow> jsstring \<Rightarrow> jsstring \<Rightarrow> jsstring \<Rightarrow> world \<Rightarrow> unit result \<times> world" where
  "storeChunkedAsync h key compressed original w =
     (let chunks = chunk compressed in
      case storeChunksAsync (node w) key chunks 0 of
        (chunkPromises, nd1) \<Rightarrow>
          (case promiseAll chunkPromises of
             Inl e \<Rightarrow> (Inl e, w\<lparr>node := nd1\<rparr>)
           | Inr _ \<Rightarrow>
               (let totalUsage = chunksUsage key chunks 0 0 in
                case JSON_stringify h (chunkedMetadata h chunks original) of
                  None \<Rightarrow> (Inl NativeError, w\<lparr>node := nd1\<rparr>)
                | Some metadataStr \<Rightarrow>
                    (let metadataKey = metadataKeyOf key in
                     case validateEntrySize metadataKey metadataStr of
                       Inl e \<Rightarrow> (Inl e, w\<lparr>node := nd1\<rparr>)
                     | Inr _ \<Rightarrow>
                         (case node_setPluginData nd1 metadataKey metadataStr of
                            (Inl e, nd2) \<Rightarrow> (Inl e, w\<lparr>node := nd2\<rparr>)
                          | (Inr _, nd2) \<Rightarrow>
                              (let totalUsage' = totalUsage + (length metadataKey + length metadataStr)
                               in (Inr (), \<lparr>node = nd2,
                                     usage = recordUsage (usage w) (node_id nd2) key totalUsage'\<rparr>)))))))"

definition setPluginDataAsyncTry :: "host \<Rightarrow> jsstring \<Rightarrow> jsstring \<Rightarrow> world \<Rightarrow> unit result \<times> world" where
  "setPluginDataAsyncTry h key data w =
     (case compressAsync h data of
        Inl e \<Rightarrow> (Inl e, w)
      | Inr compressed \<Rightarrow>
          (let estimatedSize = length compressed + 200 in
           if \<not> canStore (usage w) estimatedSize
           then (Inl (QuotaExceededError estimatedSize (getRemainingQuota (usage w))), w)
           else
             let oldUsage = getKeyUsage (usage w) (node_id (node w)) key;
                 w1 = (if oldUsage > 0
                       then w\<lparr>usage := removeUsage (usage w) (node_id (node w)) key\<rparr>
                       else w);
                 maxChunkSize = getSafeChunkSize key
             in if int (length compressed) > maxChunkSize
                then storeChunkedAsync h key compressed data w1
                else storeSingleAsync h key compressed data w1))"

definition setPluginDataAsync :: "host \<Rightarrow> jsstring \<Rightarrow> jsvalue \<Rightarrow> world \<Rightarrow> unit result \<times> world" where
  "setPluginDataAsync h key value w =
     (if key = [] \<or> startsWith key (lit ''__fpdu_'') then (Inl (InvalidKeyError key), w)
      else
        case serialize h value of
          None \<Rightarrow> (Inl NativeError, w)
        | Some data \<Rightarrow>
            (let size = blobSize h data in
             if size > MAX_DATA_SIZE then (Inl (DataTooLargeError size), w)
             else
               case setPluginDataAsyncTry h key data w of
                 (Inl e, w') \<Rightarrow> (Inl (rethrowWrite e), w')
               | (Inr u, w') \<Rightarrow> (Inr u, w')))"

section \<open>The rounds of a counting loop\<close>

text \<open>
  How many rounds \<open>for (let i = 0; i < v; i++)\<close> makes when nothing is thrown in its
  body: the least integer that is not below \<open>v\<close>. There is none when the condition
  never fails, which is so for \<open>Infinity\<close> and for every number above \<open>2^53\<close>, where
  the counter stays. The lemmas \<open>below_loopBound\<close> and \<open>below_unbounded\<close> relate this
  number to the condition of the loop.
\<close>

definition loopBound :: "host \<Rightarrow> jsvalue option \<Rightarrow> nat option" where
  "loopBound h v =
     (case toNumeric h v of
        Finite r \<Rightarrow> if r \<le> 2 ^ 53 then Some (nat \<lceil>r\<rceil>) else None
      | PosInfinity \<Rightarrow> None
      | NegInfinity \<Rightarrow> Some 0
      | NaN \<Rightarrow> Some 0)"

section \<open>What a deletion erases\<close>

text \<open>
  Notions for stating what \<open>deletePluginData\<close> does to the node of the test suite,
  read off its code: a write of the empty string is accepted when the key alone is
  within the entry limit; a loop that has a bound visits the indices below it and stops
  at the first chunk key that is too long; the metadata record is erased when the loop
  came to its end. \<open>eraseEach\<close> is the loop run over a list of indices.
\<close>

definition shortKey :: "jsstring \<Rightarrow> bool" where
  "shortKey k = (length k \<le> 100 * 1024)"

fun eraseEach :: "mock_node \<Rightarrow> jsstring \<Rightarrow> nat list \<Rightarrow> unit result \<times> mock_node" where
  "eraseEach nd key [] = (Inr (), nd)"
| "eraseEach nd key (i # rest) =
     (let chunkKey = calculateChunkKey key i in
      case node_setPluginData nd chunkKey [] of
        (Inl e, nd') \<Rightarrow> (Inl e, nd')
      | (Inr _, nd') \<Rightarrow> eraseEach nd' key rest)"

definition visitedIndices :: "host \<Rightarrow> jsvalue \<Rightarrow> jsvalue option \<Rightarrow> nat list" where
  "visitedIndices h metadata chunked =
     (if truthy chunked
      then (case getProp metadata (lit ''totalChunks'') of
              Inl e \<Rightarrow> []
            | Inr totalChunks \<Rightarrow> (case loopBound h totalChunks of None \<Rightarrow> [] | Some n \<Rightarrow> [0..<n]))
      else [])"

definition erasedIndices :: "jsstring \<Rightarrow> nat list \<Rightarrow> nat list" where
  "erasedIndices key indices = takeWhile (\<lambda>i. shortKey (calculateChunkKey key i)) indices"

definition managedErased :: "host \<Rightarrow> jsstring \<Rightarrow> jsstring \<Rightarrow> jsstring set" where
  "managedErased h key metadataStr =
     (case JSON_parse h metadataStr of
        None \<Rightarrow> {}
      | Some metadata \<Rightarrow>
          (case getProp metadata (lit ''chunked'') of
             Inl e \<Rightarrow> {}
           | Inr chunked \<Rightarrow>
               calculateChunkKey key ` set (erasedIndices key (visitedIndices h metadata chunked)) \<union>
               (if erasedIndices key (visitedIndices h metadata chunked) = visitedIndices h metadata chunked
                   \<and> shortKey (metadataKeyOf key)
                then {metadataKeyOf key} else {})))"

text \<open>
  A metadata text that sends \<open>deletePluginData\<close> into a loop whose condition never
  fails: it is not empty, it parses, its \<open>chunked\<close> is true in a condition, and its
  \<open>totalChunks\<close> has no bound.
\<close>

definition endless :: "host \<Rightarrow> jsstring \<Rightarrow> bool" where
  "endless h metadataStr =
     (metadataStr \<noteq> [] \<and>
      (case JSON_parse h metadataStr of
         None \<Rightarrow> False
       | Some metadata \<Rightarrow>
           (case getProp metadata (lit ''chunked'') of
              Inl e \<Rightarrow> False
            | Inr chunked \<Rightarrow>
                truthy chunked \<and>
                (case getProp metadata (lit ''totalChunks'') of
                   Inl e \<Rightarrow> False
                 | Inr totalChunks \<Rightarrow> loopBound h totalChunks = None))))"

section \<open>A stand-in platform for concrete runs\<close>

text \<open>
  To run the library on concrete inputs the platform functions need values. The stand-in
  is exact on ASCII text: the encoder and decoder map a code unit to the byte of the same
  number, gzip and base64 keep their input as it is, the size of a \<open>Blob\<close> is the
  string's length (the polyfill of tests/setup.ts), \<open>JSON.stringify\<close> writes a value
  without white space (strings without escapes, numbers when they are integers, \<open>null\<close>
  for an infinity and for \<open>NaN\<close>), \<open>JSON.parse\<close> reads the documents of a given list
  back from their serialized text and rejects every other text, and no string, array or
  object converts to a number.
\<close>

definition joinWith :: "jsstring \<Rightarrow> jsstring list \<Rightarrow> jsstring" where
  "joinWith sep parts = concat (case parts of [] \<Rightarrow> [] | p # ps \<Rightarrow> p # map (\<lambda>q. sep @ q) ps)"

definition quoted :: "jsstring \<Rightarrow> jsstring" where
  "quoted s = [34] @ s @ [34]"

primrec simStringify :: "jsvalue \<Rightarrow> jsstring option" where
  "simStringify JNull = Some (lit ''null'')"
| "simStringify (JBool b) = Some (if b then lit ''true'' else lit ''false'')"
| "simStringify (JNum n) =
     (case n of
        Finite x \<Rightarrow>
          if of_int \<lfloor>x\<rfloor> = x
          then Some (if x < 0 then lit ''-'' @ numberToString (nat (- \<lfloor>x\<rfloor>))
                     else numberToString (nat \<lfloor>x\<rfloor>))
          else None
      | _ \<Rightarrow> Some (lit ''null''))"
| "simStringify (JStr s) = Some (quoted s)"
| "simStringify (JArr items) =
     map_option (\<lambda>parts. lit ''['' @ joinWith (lit '','') parts @ lit '']'')
       (those (map simStringify items))"
| "simStringify (JObj members) =
     map_option (\<lambda>parts. lit ''{'' @ joinWith (lit '','') parts @ lit ''}'')
       (those (map (\<lambda>(name, text). map_option (\<lambda>t. quoted name @ lit '':'' @ t) text)
                 (map (map_prod id simStringify) members)))"
| "simStringify (JBigInt n) = None"

definition simParse :: "jsvalue list \<Rightarrow> jsstring \<Rightarrow> jsvalue option" where
  "simParse documents text = find (\<lambda>v. simStringify v = Some text) documents"

definition simHost :: "jsvalue list \<Rightarrow> host" where
  "simHost documents =
     \<lparr>textEncode = map ucast, textDecode = map ucast,
      gzipSync = Some, gunzipSync = Some, gzip = Some, gunzip = Some,
      btoa = Some, atob = Some,
      blobSize = length,
      JSON_stringify = simStringify, JSON_parse = simParse documents,
      toNumber = (\<lambda>v. NaN)\<rparr>"

definition emptyWorld :: "jsstring \<Rightarrow> world" where
  "emptyWorld nodeId = \<lparr>node = \<lparr>node_id = nodeId, storage = [], nodeUsage = 0\<rparr>, usage = []\<rparr>"

text \<open>
  A node that holds the key \<open>k\<close> in the chunked layout, written by hand as the test
  suite does: two chunk records and the metadata record of the text \<open>hello\<close>.
\<close>

definition chunkedDocument :: jsvalue where
  "chunkedDocument = chunkedMetadata (simHost []) [lit ''hel'', lit ''lo''] (lit ''hello'')"

definition chunkedWorld :: world where
  \<open>chunkedWorld =
     \<lparr>node = \<lparr>node_id = lit ''n1'',
              storage = [(lit ''__fpdu_chunk_k_0'', lit ''hel''),
                         (lit ''__fpdu_chunk_k_1'', lit ''lo''),
                         (lit ''__fpdu_meta_k'',
                          lit ''{"compressed":true,"chunked":true,"totalChunks":2,"checksum":"1n1e4y","size":5}'')],
              nodeUsage = 84\<rparr>,
      usage = [(lit ''n1'', [(lit ''k'', 129)])]\<rparr>\<close>

text \<open>
  A node six bytes short of its own 1MB limit, filled with records written past the
  library (the quota table knows nothing of them). The node of the test suite counts
  the length of the value of a record that was not there before.
\<close>

definition crowdedWorld :: world where
  "crowdedWorld =
     \<lparr>node = \<lparr>node_id = lit ''n1'',
              storage = map (\<lambda>name. (name, replicate 102399 120))
                          [lit ''a'', lit ''b'', lit ''c'', lit ''d'', lit ''e'',
                           lit ''f'', lit ''g'', lit ''h'', lit ''i'', lit ''j'']
                        @ [(lit ''z'', replicate 24580 120)],
              nodeUsage = 1048570\<rparr>,
      usage = []\<rparr>"

text \<open>
  A node whose metadata record for the key \<open>corrupt\<close> is not JSON, as in the test
  'should handle corrupted data gracefully', with a record under the key itself.
\<close>

definition corruptedWorld :: world where
  "corruptedWorld =
     \<lparr>node = \<lparr>node_id = lit ''n1'',
              storage = [(lit ''corrupt'', lit ''payload''),
                         (lit ''__fpdu_meta_corrupt'', lit ''invalid json'')],
              nodeUsage = 19\<rparr>,
      usage = [(lit ''n1'', [(lit ''corrupt'', 45)])]\<rparr>"

text \<open>
  A platform that reads the metadata text \<open>{"chunked":true,"totalChunks":1e999}\<close> as
  \<open>JSON.parse\<close> does, the number as \<open>Infinity\<close>, and a node that holds this text as
  the metadata record of the key \<open>k\<close>.
\<close>

definition endlessHost :: host where
  \<open>endlessHost =
     (simHost [])\<lparr>JSON_parse := (\<lambda>text.
        if text = lit ''{"chunked":true,"totalChunks":1e999}''
        then Some (JObj [(lit ''chunked'', JBool True), (lit ''totalChunks'', JNum PosInfinity)])
        else None)\<rparr>\<close>

definition endlessWorld :: world where
  \<open>endlessWorld =
     \<lparr>node = \<lparr>node_id = lit ''n1'',
              storage = [(lit ''__fpdu_meta_k'', lit ''{"chunked":true,"totalChunks":1e999}'')],
              nodeUsage = 36\<rparr>,
      usage = []\<rparr>\<close>

text \<open>
  A key of 15345 code units and a text of eleven full chunks. With this key a chunk
  record of index below ten is exactly as large as an entry may be, and the record of
  index ten, whose key is one digit longer, is one code unit too large.
\<close>

definition bigKey :: jsstring where
  "bigKey = replicate 15345 107"

definition bigData :: jsstring where
  "bigData = replicate (11 * CHUNK_SIZE) 120"

section \<open>Properties of the chunk layout\<close>

declare sliceLoop.simps [simp del]
declare toStringRadix.simps [simp del]

lemma concat_sliceLoop:
  "0 < step \<Longrightarrow> i \<le> length data \<Longrightarrow>
   concat (sliceLoop step data i chunks) = concat chunks @ drop i data"
proof (induction step data i chunks rule: sliceLoop.induct)
  case (1 step data i chunks)
  show ?case
  proof (cases "i < length data")
    case True
    show ?thesis
    proof (cases "i + step \<le> length data")
      case True
      have d: "drop i data = take step (drop i data) @ drop (i + step) data"
        by (metis append_take_drop_id drop_drop add.commute)
      from True \<open>i < length data\<close> "1.prems" "1.IH" [OF _ \<open>i < length data\<close>]
      have "concat (sliceLoop step data (i + step) (chunks @ [slice data i (i + step)]))
            = concat (chunks @ [slice data i (i + step)]) @ drop (i + step) data"
        by simp
      with \<open>i < length data\<close> "1.prems" d show ?thesis
        by (subst sliceLoop.simps) (simp add: slice_def)
    next
      case False
      have s: "sliceLoop step data (i + step) (chunks @ [slice data i (i + step)])
               = chunks @ [slice data i (i + step)]"
        using False "1.prems" by (subst sliceLoop.simps) simp
      from False have "slice data i (i + step) = drop i data"
        by (simp add: slice_def)
      with s \<open>i < length data\<close> "1.prems" show ?thesis
        by (subst sliceLoop.simps) simp
    qed
  next
    case False
    with "1.prems" show ?thesis
      by (subst sliceLoop.simps) simp
  qed
qed


lemma sliceLoop_bounded:
  "0 < step \<Longrightarrow> \<forall>c \<in> set chunks. length c \<le> step \<and> c \<noteq> [] \<Longrightarrow>
   \<forall>c \<in> set (sliceLoop step data i chunks). length c \<le> step \<and> c \<noteq> []"
proof (induction step data i chunks rule: sliceLoop.induct)
  case (1 step data i chunks)
  show ?case
  proof (cases "i < length data")
    case True
    have "\<forall>c \<in> set (chunks @ [slice data i (i + step)]). length c \<le> step \<and> c \<noteq> []"
      using True "1.prems" by (auto simp: slice_def)
    with "1.IH" [OF _ True] "1.prems" True show ?thesis
      by (subst sliceLoop.simps) simp
  next
    case False
    with "1.prems" show ?thesis
      by (subst sliceLoop.simps) simp
  qed
qed

lemma sliceLoop_full:
  "0 < step \<Longrightarrow> \<forall>c \<in> set chunks. length c = step \<Longrightarrow>
   \<forall>c \<in> set (butlast (sliceLoop step data i chunks)). length c = step"
proof (induction step data i chunks rule: sliceLoop.induct)
  case (1 step data i chunks)
  show ?case
  proof (cases "i < length data")
    case True
    note inside = True
    show ?thesis
    proof (cases "i + step \<le> length data")
      case True
      have "\<forall>c \<in> set (chunks @ [slice data i (i + step)]). length c = step"
        using True "1.prems" by (auto simp: slice_def)
      with "1.IH" [OF _ inside] "1.prems" inside show ?thesis
        by (subst sliceLoop.simps) simp
    next
      case False
      have "sliceLoop step data (i + step) (chunks @ [slice data i (i + step)])
            = chunks @ [slice data i (i + step)]"
        using False "1.prems" by (subst sliceLoop.simps) simp
      with inside "1.prems" show ?thesis
        by (subst sliceLoop.simps) simp
    qed
  next
    case False
    with "1.prems" have "sliceLoop step data i chunks = chunks"
      by (subst sliceLoop.simps) simp
    with "1.prems" show ?thesis
      by (auto dest: in_set_butlastD)
  qed
qed

lemma CHUNK_SIZE_pos: "0 < CHUNK_SIZE"
  by (simp add: CHUNK_SIZE_def)

lemma CHUNK_SIZE_nonzero: "CHUNK_SIZE \<noteq> 0"
  by (simp add: CHUNK_SIZE_def)

lemma concat_chunk: "concat (chunk data) = data"
  by (simp add: chunk_def concat_sliceLoop CHUNK_SIZE_pos)

lemma chunk_pieces: "c \<in> set (chunk data) \<Longrightarrow> length c \<le> CHUNK_SIZE \<and> c \<noteq> []"
  using sliceLoop_bounded [of CHUNK_SIZE "[]" data 0] by (simp add: chunk_def CHUNK_SIZE_pos)

lemma chunk_butlast: "c \<in> set (butlast (chunk data)) \<Longrightarrow> length c = CHUNK_SIZE"
  using sliceLoop_full [of CHUNK_SIZE "[]" data 0] by (simp add: chunk_def CHUNK_SIZE_pos)

lemma chunk_Nil: "chunk [] = []"
  by (simp add: chunk_def sliceLoop.simps)

lemma chunk_short: "data \<noteq> [] \<Longrightarrow> length data \<le> CHUNK_SIZE \<Longrightarrow> chunk data = [data]"
  by (simp add: chunk_def sliceLoop.simps [of _ data] slice_def CHUNK_SIZE_pos)

lemma chunk_count: "length (chunk data) \<le> length data"
proof -
  have "length xs \<le> length (concat xs)" if "[] \<notin> set xs" for xs :: "jsstring list"
    using that
  proof (induction xs)
    case Nil
    then show ?case by simp
  next
    case (Cons x xs)
    then have "x \<noteq> []" and "length xs \<le> length (concat xs)"
      by auto
    then show ?case
      by (cases x) simp_all
  qed
  moreover have "[] \<notin> set (chunk data)"
    using chunk_pieces [of "[]" data] by blast
  ultimately have "length (chunk data) \<le> length (concat (chunk data))" .
  then show ?thesis
    by (simp add: concat_chunk)
qed

section \<open>Running the model\<close>

lemma uint8ArrayToBase64_eq: "uint8ArrayToBase64 h array = btoa h (map ucast array)"
  by (simp add: uint8ArrayToBase64_def COMPRESSOR_CHUNK_SIZE_def concat_sliceLoop flip: map_concat)

lemmas run_simps =
  lit_def startsWith_def slice_def digitChar_def toStringRadix.simps numberToString_def
  calculateChunkKey_def validateChunkEntry_def getSafeChunkSize_def MAX_ENTRY_SIZE_def
  checksumStep_def calculateChecksum_def getProp_def truthy_def validate_def
  uint8ArrayToBase64_eq compress_def decompress_def compressAsync_def decompressAsync_def
  MAX_TOTAL_QUOTA_def getCurrentUsage_def getRemainingQuota_def canStore_def recordUsage_def
  removeUsage_def validateEntrySize_def getKeyUsage_def
  node_getPluginData_def node_setPluginData_def node_getPluginDataKeys_def
  metadataKeyOf_def singleMetadata_def chunkedMetadata_def storeSingle_def storeChunked_def
  rethrowWrite_def setPluginDataTry_def serialize_def MAX_DATA_SIZE_def setPluginData_def
  decodeValue_def toNumeric_def below_def increment_def loopBound_def MAX_ARRAY_LENGTH_def
  retrieveChunks.simps retrieveChunked_def getPluginDataTry_def rethrowRead_def
  getPluginData_def getPluginDataKeys_def deleteChunks.simps deleteManaged_def deletePluginData_def
  shortKey_def promiseAll_def executorPromise_def storeSingleAsync_def storeChunkedAsync_def
  setPluginDataAsyncTry_def setPluginDataAsync_def
  joinWith_def quoted_def simParse_def simHost_def emptyWorld_def

section \<open>The read path\<close>

lemma below_loopBound: "loopBound h v = Some n \<Longrightarrow> below i (toNumeric h v) \<longleftrightarrow> i < n"
  by (auto simp: loopBound_def below_def less_ceiling_iff nat_less_iff zless_nat_eq_int_zless
      split: jsnumber.splits if_splits)

lemma loopBound_le: "loopBound h v = Some n \<Longrightarrow> n \<le> 2 ^ 53"
  by (auto simp: loopBound_def ceiling_le_iff nat_le_iff split: jsnumber.splits if_splits)

lemma below_unbounded: "loopBound h v = None \<Longrightarrow> i \<le> 2 ^ 53 \<Longrightarrow> below i (toNumeric h v)"
  by (auto simp: loopBound_def below_def split: jsnumber.splits if_splits)

lemma retrieveChunks_eq:
  assumes "loopBound h v = Some n" and "n \<le> MAX_ARRAY_LENGTH"
  shows "i \<le> n \<Longrightarrow> length acc = i \<Longrightarrow>
         retrieveChunks h nd key v i acc =
           (if [] \<in> set (map (\<lambda>i. node_getPluginData nd (calculateChunkKey key i)) [i..<n])
            then Inl (DataCorruptedError key)
            else Inr (acc @ map (\<lambda>i. node_getPluginData nd (calculateChunkKey key i)) [i..<n]))"
proof (induction "n - i" arbitrary: i acc)
  case 0
  with assms show ?case
    by (subst retrieveChunks.simps) (simp add: below_loopBound)
next
  case (Suc d)
  then have lt: "i < n"
    by simp
  with assms(2) have inc: "increment i = Suc i"
    by (simp add: increment_def MAX_ARRAY_LENGTH_def)
  from lt have up: "[i..<n] = i # [Suc i..<n]"
    by (simp add: upt_conv_Cons)
  from Suc.hyps(2) lt have d: "d = n - Suc i"
    by simp
  from lt have le: "Suc i \<le> n"
    by simp
  have len: "length (acc @ [node_getPluginData nd (calculateChunkKey key i)]) = Suc i"
    using Suc.prems by simp
  from Suc.hyps(1) [OF d le len] show ?case
    using lt assms Suc.prems
    by (subst retrieveChunks.simps) (simp add: below_loopBound inc up Let_def)
qed

lemma retrieveChunks_kinds:
  "retrieveChunks h nd key v i acc = Inl e \<Longrightarrow> e = DataCorruptedError key \<or> e = NativeError"
proof (induction h nd key v i acc rule: retrieveChunks.induct)
  case (1 h nd key totalChunks i chunks)
  show ?case
  proof (cases "below i (toNumeric h totalChunks) \<and>
                node_getPluginData nd (calculateChunkKey key i) \<noteq> [] \<and>
                \<not> MAX_ARRAY_LENGTH \<le> length chunks")
    case True
    with "1.prems"
    have "retrieveChunks h nd key totalChunks (increment i)
            (chunks @ [node_getPluginData nd (calculateChunkKey key i)]) = Inl e"
      by (subst (asm) retrieveChunks.simps) (simp add: Let_def)
    with True show ?thesis
      by (intro "1.IH" [OF _ refl refl]) simp_all
  next
    case False
    with "1.prems" show ?thesis
      by (subst (asm) retrieveChunks.simps) (auto simp: Let_def split: if_splits)
  qed
qed

lemma retrieveChunks_overflow:
  assumes "\<forall>n. loopBound h v = Some n \<longrightarrow> MAX_ARRAY_LENGTH < n"
  shows "i \<le> MAX_ARRAY_LENGTH \<Longrightarrow> length acc = i \<Longrightarrow> \<exists>e. retrieveChunks h nd key v i acc = Inl e"
proof (induction "MAX_ARRAY_LENGTH - i" arbitrary: i acc)
  case 0
  then have i: "i = MAX_ARRAY_LENGTH"
    by simp
  have "below i (toNumeric h v)"
  proof (cases "loopBound h v")
    case None
    then show ?thesis
      by (rule below_unbounded) (simp add: i MAX_ARRAY_LENGTH_def)
  next
    case (Some n)
    with assms i show ?thesis
      by (simp add: below_loopBound)
  qed
  with 0 i show ?case
    by (subst retrieveChunks.simps) (simp add: Let_def)
next
  case (Suc d)
  then have lt: "i < MAX_ARRAY_LENGTH"
    by simp
  then have inc: "increment i = Suc i"
    by (simp add: increment_def MAX_ARRAY_LENGTH_def)
  have b: "below i (toNumeric h v)"
  proof (cases "loopBound h v")
    case None
    then show ?thesis
      using lt by - (rule below_unbounded, simp_all add: MAX_ARRAY_LENGTH_def)
  next
    case (Some n)
    with assms lt show ?thesis
      by (simp add: below_loopBound)
  qed
  from Suc.hyps(2) lt have d: "d = MAX_ARRAY_LENGTH - Suc i"
    by simp
  from lt have le: "Suc i \<le> MAX_ARRAY_LENGTH"
    by simp
  have len: "length (acc @ [node_getPluginData nd (calculateChunkKey key i)]) = Suc i"
    using Suc.prems by simp
  from Suc.hyps(1) [OF d le len] show ?case
    using lt b Suc.prems
    by (subst retrieveChunks.simps) (simp add: inc Let_def)
qed

lemma decompress_error: "decompress h s = Inl e \<Longrightarrow> e = CompressionError decompress_op"
  by (auto simp: decompress_def split: option.splits)

lemma getProp_error: "getProp v name = Inl e \<Longrightarrow> e = NativeError"
  by (auto simp: getProp_def split: jsvalue.splits)

lemma retrieveChunked_error:
  "retrieveChunked h key metadata nd = Inl e \<Longrightarrow> rethrowRead key e = DataCorruptedError key"
  by (auto simp: retrieveChunked_def rethrowRead_def Let_def
      split: sum.splits if_splits dest!: decompress_error getProp_error retrieveChunks_kinds)

lemma getPluginDataTry_error:
  "getPluginDataTry h key metadataStr nd = Inl e \<Longrightarrow> rethrowRead key e = DataCorruptedError key"
  by (auto simp: getPluginDataTry_def rethrowRead_def Let_def
      split: option.splits sum.splits if_splits
      dest!: decompress_error getProp_error dest: retrieveChunked_error)

section \<open>The write path\<close>

lemma rethrowWrite_kinds:
  "(\<exists>n r. rethrowWrite e = QuotaExceededError n r) \<or> (\<exists>s m. rethrowWrite e = EntryTooLargeError s m) \<or>
   rethrowWrite e = CompressionError compress_op"
  by (cases e) (simp_all add: rethrowWrite_def)

lemma rethrowWrite_other:
  "(\<forall>n r. e \<noteq> QuotaExceededError n r) \<Longrightarrow> (\<forall>s m. e \<noteq> EntryTooLargeError s m) \<Longrightarrow>
   rethrowWrite e = CompressionError compress_op"
  by (cases e) (simp_all add: rethrowWrite_def)

section \<open>The delete path\<close>

lemma delete_filter: "AList.delete k al = filter (\<lambda>p. fst p \<noteq> k) al"
  by (induction al) auto

lemma ex_le_when: "u \<le> n \<Longrightarrow> P u \<Longrightarrow> \<exists>u' \<le> (n::int). P u'"
  by auto

lemma erase_record:
  assumes "nodeUsage nd \<le> 1024 * 1024"
  shows "\<exists>u \<le> nodeUsage nd. node_setPluginData nd k [] =
           (if shortKey k
            then (Inr (), nd\<lparr>storage := filter (\<lambda>p. fst p \<noteq> k) (storage nd), nodeUsage := u\<rparr>)
            else (Inl NativeError, nd))"
proof (cases "shortKey k")
  case True
  with assms show ?thesis
    by (intro exI [of _ "nodeUsage nd - int (length k + length (case map_of (storage nd) k of None \<Rightarrow> [] | Some v \<Rightarrow> v))"])
       (simp add: node_setPluginData_def shortKey_def Let_def delete_filter)
next
  case False
  with assms show ?thesis
    by - (rule ex_le_when [of "nodeUsage nd"], simp_all add: node_setPluginData_def shortKey_def)
qed

lemma eraseEach_erased:
  assumes "nodeUsage nd \<le> 1024 * 1024"
  shows "\<exists>u \<le> nodeUsage nd. eraseEach nd key indices =
           ((if takeWhile (\<lambda>i. shortKey (calculateChunkKey key i)) indices = indices
             then Inr () else Inl NativeError),
            nd\<lparr>storage := filter (\<lambda>p. fst p \<notin> calculateChunkKey key `
                               set (takeWhile (\<lambda>i. shortKey (calculateChunkKey key i)) indices))
                             (storage nd),
               nodeUsage := u\<rparr>)"
  using assms
proof (induction indices arbitrary: nd)
  case Nil
  then show ?case
    by - (rule ex_le_when [of "nodeUsage nd"], simp_all)
next
  case (Cons i rest)
  show ?case
  proof (cases "shortKey (calculateChunkKey key i)")
    case False
    with erase_record [OF Cons.prems, of "calculateChunkKey key i"] show ?thesis
      by - (rule ex_le_when [of "nodeUsage nd"], auto simp: Let_def)
  next
    case True
    from erase_record [OF Cons.prems, of "calculateChunkKey key i"] True
    obtain u where u: "u \<le> nodeUsage nd"
      and e: "node_setPluginData nd (calculateChunkKey key i) [] =
                (Inr (), nd\<lparr>storage := filter (\<lambda>p. fst p \<noteq> calculateChunkKey key i) (storage nd),
                            nodeUsage := u\<rparr>)"
      by auto
    let ?nd1 = "nd\<lparr>storage := filter (\<lambda>p. fst p \<noteq> calculateChunkKey key i) (storage nd), nodeUsage := u\<rparr>"
    from u Cons.prems have "nodeUsage ?nd1 \<le> 1024 * 1024"
      by simp
    from Cons.IH [OF this] obtain u' where u': "u' \<le> u"
      and r: "eraseEach ?nd1 key rest =
           ((if takeWhile (\<lambda>i. shortKey (calculateChunkKey key i)) rest = rest
             then Inr () else Inl NativeError),
            ?nd1\<lparr>storage := filter (\<lambda>p. fst p \<notin> calculateChunkKey key `
                               set (takeWhile (\<lambda>i. shortKey (calculateChunkKey key i)) rest))
                             (storage ?nd1),
               nodeUsage := u'\<rparr>)"
      by auto
    have f: "filter (\<lambda>p. fst p \<notin> calculateChunkKey key `
                               set (takeWhile (\<lambda>i. shortKey (calculateChunkKey key i)) rest))
               (filter (\<lambda>p. fst p \<noteq> calculateChunkKey key i) (storage nd))
           = filter (\<lambda>p. fst p \<notin> calculateChunkKey key `
                               set (takeWhile (\<lambda>i. shortKey (calculateChunkKey key i)) (i # rest)))
               (storage nd)"
      using True by (auto intro: filter_cong)
    from u u' have "u' \<le> nodeUsage nd"
      by simp
    with e r f True show ?thesis
      by - (rule ex_le_when [of u'], simp_all add: Let_def)
  qed
qed


lemma getProp_total: "getProp v a = Inr x \<Longrightarrow> \<exists>y. getProp v b = Inr y"
  by (auto simp: getProp_def split: jsvalue.splits)

lemma deleteChunks_bounded:
  assumes "loopBound h v = Some n"
  shows "i \<le> n \<Longrightarrow> deleteChunks h nd key v i = Some (eraseEach nd key [i..<n])"
proof (induction "n - i" arbitrary: i nd)
  case 0
  with assms show ?case
    by (subst deleteChunks.simps) (simp add: below_loopBound)
next
  case (Suc d)
  then have lt: "i < n"
    by simp
  with loopBound_le [OF assms] have inc: "increment i = Suc i"
    by (simp add: increment_def)
  from lt have up: "[i..<n] = i # [Suc i..<n]"
    by (simp add: upt_conv_Cons)
  from Suc.hyps(2) lt have d: "d = n - Suc i"
    by simp
  from lt have le: "Suc i \<le> n"
    by simp
  obtain r nd' where p: "node_setPluginData nd (calculateChunkKey key i) [] = (r, nd')"
    by (cases "node_setPluginData nd (calculateChunkKey key i) []")
  show ?case
  proof (cases r)
    case (Inl e)
    with p lt assms show ?thesis
      by (subst deleteChunks.simps) (simp add: below_loopBound up Let_def)
  next
    case (Inr u)
    with p lt assms Suc.hyps(1) [OF d le, of nd'] show ?thesis
      by (subst deleteChunks.simps) (simp add: below_loopBound inc up Let_def)
  qed
qed

lemma toStringRadix_length: "0 < k \<Longrightarrow> n < 10 ^ k \<Longrightarrow> length (toStringRadix 10 n) \<le> k"
proof (induction k arbitrary: n)
  case 0
  then show ?case by simp
next
  case (Suc k)
  show ?case
  proof (cases "n < 10")
    case True
    then show ?thesis
      by (subst toStringRadix.simps) simp
  next
    case False
    with Suc.prems have k: "0 < k"
      by (cases k) simp_all
    from Suc.prems have "n div 10 < 10 ^ k"
      by (simp add: less_mult_imp_div_less mult.commute)
    from Suc.IH [OF k this] False show ?thesis
      by (subst toStringRadix.simps) simp
  qed
qed

lemma calculateChunkKey_short:
  assumes "shortKey (calculateChunkKey key (2 ^ 53))" and "i \<le> 2 ^ 53"
  shows "shortKey (calculateChunkKey key i)"
proof -
  from assms(2) have "i < 10 ^ 16"
    by simp
  from toStringRadix_length [OF _ this] have "length (numberToString i) \<le> 16"
    by (simp add: numberToString_def)
  moreover have "length (numberToString (2 ^ 53)) = 16"
    by (simp add: numberToString_def toStringRadix.simps)
  ultimately show ?thesis
    using assms(1) by (simp add: shortKey_def calculateChunkKey_def)
qed

lemma deleteChunks_endless:
  assumes "loopBound h v = None" and "shortKey (calculateChunkKey key (2 ^ 53))"
    and "nodeUsage nd \<le> 1024 * 1024" and "i \<le> 2 ^ 53"
  shows "deleteChunks h nd key v i = None"
proof -
  let ?P = "\<lambda>h' nd' key' v' i' (y :: unit result \<times> mock_node).
              \<not> (h' = h \<and> key' = key \<and> v' = v \<and> nodeUsage nd' \<le> 1024 * 1024 \<and> i' \<le> 2 ^ 53)"
  have "?P h nd key v i y" if "deleteChunks h nd key v i = Some y" for y
  proof (rule deleteChunks.raw_induct [where P = ?P, rotated 1, OF that])
    fix f h' nd' key' v' i' and y :: "unit result \<times> mock_node"
    assume ih: "\<And>h' nd' key' v' i' y. f h' nd' key' v' i' = Some y \<Longrightarrow> ?P h' nd' key' v' i' y"
      and st: "(if below i' (toNumeric h' v')
                then (let chunkKey = calculateChunkKey key' i' in
                      case node_setPluginData nd' chunkKey [] of
                        (Inl e, nd'') \<Rightarrow> Some (Inl e, nd'')
                      | (Inr _, nd'') \<Rightarrow> f h' nd'' key' v' (increment i'))
                else Some (Inr (), nd')) = Some y"
    show "?P h' nd' key' v' i' y"
    proof
      assume a: "h' = h \<and> key' = key \<and> v' = v \<and> nodeUsage nd' \<le> 1024 * 1024 \<and> i' \<le> 2 ^ 53"
      then have i': "i' \<le> 2 ^ 53" and u: "nodeUsage nd' \<le> 1024 * 1024"
        by simp_all
      from below_unbounded [OF assms(1) i'] a have b: "below i' (toNumeric h' v')"
        by simp
      from calculateChunkKey_short [OF assms(2) i'] have sk: "shortKey (calculateChunkKey key i')" .
      from erase_record [OF u, of "calculateChunkKey key i'"] sk
      obtain u' where u': "u' \<le> nodeUsage nd'"
        and e: "node_setPluginData nd' (calculateChunkKey key i') [] =
                  (Inr (), nd'\<lparr>storage := filter (\<lambda>p. fst p \<noteq> calculateChunkKey key i') (storage nd'),
                              nodeUsage := u'\<rparr>)"
        by auto
      let ?nd'' = "nd'\<lparr>storage := filter (\<lambda>p. fst p \<noteq> calculateChunkKey key i') (storage nd'),
                        nodeUsage := u'\<rparr>"
      from st b e a have "f h ?nd'' key v (increment i') = Some y"
        by (simp add: Let_def)
      from ih [OF this] have "\<not> (nodeUsage ?nd'' \<le> 1024 * 1024 \<and> increment i' \<le> 2 ^ 53)"
        by simp
      moreover from u u' have "nodeUsage ?nd'' \<le> 1024 * 1024"
        by simp
      moreover from i' have "increment i' \<le> 2 ^ 53"
        by (simp add: increment_def)
      ultimately show False
        by simp
    qed
  qed
  with assms(3,4) show ?thesis
    by (cases "deleteChunks h nd key v i") auto
qed

lemma deleteManaged_endless:
  assumes "endless h metadataStr" and "shortKey (calculateChunkKey key (2 ^ 53))"
    and "nodeUsage nd \<le> 1024 * 1024"
  shows "deleteManaged h key metadataStr nd = None"
proof -
  from assms(1) obtain metadata chunked totalChunks where
    "JSON_parse h metadataStr = Some metadata"
    "getProp metadata (lit ''chunked'') = Inr chunked" "truthy chunked"
    "getProp metadata (lit ''totalChunks'') = Inr totalChunks" "loopBound h totalChunks = None"
    by (auto simp: endless_def split: option.splits sum.splits)
  moreover from deleteChunks_endless [OF this(5) assms(2,3), of 0]
  have "deleteChunks h nd key totalChunks 0 = None"
    by simp
  ultimately show ?thesis
    by (simp add: deleteManaged_def)
qed

lemma deleteManaged_erased:
  assumes "nodeUsage nd \<le> 1024 * 1024" and "\<not> endless h metadataStr" and "metadataStr \<noteq> []"
  shows "\<exists>u \<le> nodeUsage nd. deleteManaged h key metadataStr nd =
           Some (nd\<lparr>storage := filter (\<lambda>p. fst p \<notin> managedErased h key metadataStr) (storage nd),
                    nodeUsage := u\<rparr>)"
proof (cases "JSON_parse h metadataStr")
  case None
  then show ?thesis
    by - (rule ex_le_when [of "nodeUsage nd"], simp_all add: deleteManaged_def managedErased_def)
next
  case (Some metadata)
  show ?thesis
  proof (cases "getProp metadata (lit ''chunked'')")
    case (Inl e)
    with Some show ?thesis
      by - (rule ex_le_when [of "nodeUsage nd"], simp_all add: deleteManaged_def managedErased_def)
  next
    case (Inr chunked)
    from getProp_total [OF Inr, of "lit ''totalChunks''"] obtain totalChunks
      where tc: "getProp metadata (lit ''totalChunks'') = Inr totalChunks"
      by blast
    define indices where "indices = visitedIndices h metadata chunked"
    define erased where "erased = erasedIndices key indices"
    have ind: "indices = (if truthy chunked
                          then (case loopBound h totalChunks of None \<Rightarrow> [] | Some n \<Rightarrow> [0..<n])
                          else [])"
      by (simp add: indices_def visitedIndices_def tc)
    have me: "managedErased h key metadataStr = calculateChunkKey key ` set erased \<union>
                (if erased = indices \<and> shortKey (metadataKeyOf key) then {metadataKeyOf key} else {})"
      by (simp add: managedErased_def Some Inr tc indices_def erased_def)
    from eraseEach_erased [OF assms(1), of key indices] obtain u where u: "u \<le> nodeUsage nd"
      and dc: "eraseEach nd key indices =
           ((if erased = indices then Inr () else Inl NativeError),
            nd\<lparr>storage := filter (\<lambda>p. fst p \<notin> calculateChunkKey key ` set erased) (storage nd),
               nodeUsage := u\<rparr>)"
      by (auto simp: erased_def erasedIndices_def)
    let ?nd1 = "nd\<lparr>storage := filter (\<lambda>p. fst p \<notin> calculateChunkKey key ` set erased) (storage nd),
                   nodeUsage := u\<rparr>"
    have loop: "(if truthy chunked
                 then (case getProp metadata (lit ''totalChunks'') of
                         Inl e \<Rightarrow> Some (Inl e, nd)
                       | Inr totalChunks \<Rightarrow> deleteChunks h nd key totalChunks 0)
                 else Some (Inr (), nd))
               = Some ((if erased = indices then Inr () else Inl NativeError), ?nd1)"
    proof (cases "truthy chunked")
      case True
      with assms(2,3) Some Inr tc obtain n where n: "loopBound h totalChunks = Some n"
        by (auto simp: endless_def)
      from deleteChunks_bounded [OF n, of 0 nd key] have "deleteChunks h nd key totalChunks 0 = Some (eraseEach nd key [0..<n])"
        by simp
      with True tc dc n show ?thesis
        by (simp add: ind)
    next
      case False
      then have "indices = []" "erased = []"
        by (simp_all add: ind erased_def erasedIndices_def)
      with dc show ?thesis
        using False by simp
    qed
    show ?thesis
    proof (cases "erased = indices")
      case False
      with Some Inr loop me u show ?thesis
        by - (rule ex_le_when [of u], simp_all add: deleteManaged_def)
    next
      case True
      from u assms(1) have "nodeUsage ?nd1 \<le> 1024 * 1024"
        by simp
      from erase_record [OF this, of "metadataKeyOf key"] obtain u' where u': "u' \<le> u"
        and er: "node_setPluginData ?nd1 (metadataKeyOf key) [] =
           (if shortKey (metadataKeyOf key)
            then (Inr (), ?nd1\<lparr>storage := filter (\<lambda>p. fst p \<noteq> metadataKeyOf key) (storage ?nd1),
                                nodeUsage := u'\<rparr>)
            else (Inl NativeError, ?nd1))"
        by auto
      show ?thesis
      proof (cases "shortKey (metadataKeyOf key)")
        case False
        with Some Inr loop me u er True show ?thesis
          by - (rule ex_le_when [of u], simp_all add: deleteManaged_def)
      next
        case short: True
        have f: "filter (\<lambda>p. fst p \<noteq> metadataKeyOf key)
                   (filter (\<lambda>p. fst p \<notin> calculateChunkKey key ` set erased) (storage nd))
                 = filter (\<lambda>p. fst p \<notin> managedErased h key metadataStr) (storage nd)"
          using me True short by (auto intro: filter_cong)
        from u u' have "u' \<le> nodeUsage nd"
          by simp
        with Some Inr loop er True short f show ?thesis
          by - (rule ex_le_when [of u'], simp_all add: deleteManaged_def)
      qed
    qed
  qed
qed

lemma deletePluginData_erased:
  assumes "nodeUsage (node w) \<le> 1024 * 1024" and "shortKey key"
    and "\<not> endless h (node_getPluginData (node w) (metadataKeyOf key))"
  shows "\<exists>u \<le> nodeUsage (node w). deletePluginData h key w =
           Some (Inr (),
            \<lparr>node = (node w)\<lparr>storage := filter (\<lambda>p. fst p \<notin> insert key
                        (if node_getPluginData (node w) (metadataKeyOf key) = [] then {}
                         else managedErased h key (node_getPluginData (node w) (metadataKeyOf key))))
                      (storage (node w)),
                    nodeUsage := u\<rparr>,
             usage = removeUsage (usage w) (node_id (node w)) key\<rparr>)"
proof -
  let ?ms = "node_getPluginData (node w) (metadataKeyOf key)"
  let ?K = "if ?ms = [] then {} else managedErased h key ?ms"
  have "\<exists>u \<le> nodeUsage (node w). (if ?ms \<noteq> [] then deleteManaged h key ?ms (node w) else Some (node w))
          = Some ((node w)\<lparr>storage := filter (\<lambda>p. fst p \<notin> ?K) (storage (node w)), nodeUsage := u\<rparr>)"
  proof (cases "?ms = []")
    case True
    then show ?thesis
      by - (rule ex_le_when [of "nodeUsage (node w)"], simp_all)
  next
    case False
    with deleteManaged_erased [OF assms(1,3) False, of key] show ?thesis
      by simp
  qed
  then obtain u where u: "u \<le> nodeUsage (node w)"
    and m: "(if ?ms \<noteq> [] then deleteManaged h key ?ms (node w) else Some (node w))
          = Some ((node w)\<lparr>storage := filter (\<lambda>p. fst p \<notin> ?K) (storage (node w)), nodeUsage := u\<rparr>)"
    by blast
  let ?nd1 = "(node w)\<lparr>storage := filter (\<lambda>p. fst p \<notin> ?K) (storage (node w)), nodeUsage := u\<rparr>"
  from u assms(1) have "nodeUsage ?nd1 \<le> 1024 * 1024"
    by simp
  from erase_record [OF this, of key] assms(2) obtain u' where u': "u' \<le> u"
    and er: "node_setPluginData ?nd1 key [] =
               (Inr (), ?nd1\<lparr>storage := filter (\<lambda>p. fst p \<noteq> key) (storage ?nd1), nodeUsage := u'\<rparr>)"
    by auto
  have f: "filter (\<lambda>p. fst p \<noteq> key) (filter (\<lambda>p. fst p \<notin> ?K) (storage (node w)))
           = filter (\<lambda>p. fst p \<notin> insert key ?K) (storage (node w))"
    by (auto intro: filter_cong)
  from u u' have "u' \<le> nodeUsage (node w)"
    by simp
  with m er f show ?thesis
    by - (rule ex_le_when [of u'], simp_all add: deletePluginData_def Let_def)
qed


lemma map_of_filter_keys:
  "map_of (filter (\<lambda>p. fst p \<notin> A) al) k = (if k \<in> A then None else map_of al k)"
  by (induction al) auto

lemma removeUsage_idem:
  "removeUsage (removeUsage u nodeId key) nodeId key = removeUsage u nodeId key"
proof (cases "map_of u nodeId")
  case None
  then show ?thesis
    by (simp add: removeUsage_def)
next
  case (Some row)
  show ?thesis
  proof (cases "AList.delete key row = []")
    case True
    with Some show ?thesis
      by (simp add: removeUsage_def delete_conv')
  next
    case False
    with Some show ?thesis
      by (simp add: removeUsage_def update_conv' delete_idem)
  qed
qed

lemma removeUsage_absent:
  assumes "\<forall>row. map_of u nodeId = Some row \<longrightarrow> row \<noteq> [] \<and> key \<notin> fst ` set row"
  shows "removeUsage u nodeId key = u"
proof (cases "map_of u nodeId")
  case None
  then show ?thesis
    by (simp add: removeUsage_def)
next
  case (Some row)
  with assms have "row \<noteq> []" "key \<notin> fst ` set row"
    by auto
  with Some show ?thesis
    by (simp add: removeUsage_def update_triv)
qed

lemma metadataKeyOf_neq: "metadataKeyOf key \<noteq> key"
proof
  assume "metadataKeyOf key = key"
  then have "length (metadataKeyOf key) = length key"
    by simp
  then show False
    by (simp add: metadataKeyOf_def lit_def)
qed

section \<open>A write followed by a read\<close>

lemma unat_digitChar: "d < 10 \<Longrightarrow> unat (digitChar d) = 48 + d"
proof -
  assume d: "d < 10"
  have p: "(2::nat) ^ LENGTH(16) = 65536"
    by simp
  have u: "unat (of_nat (48 + d) :: 16 word) = (48 + d) mod 2 ^ LENGTH(16)"
    by (simp only: unat_of_nat)
  from d have "digitChar d = of_nat (48 + d)"
    by (simp add: digitChar_def)
  then have "unat (digitChar d) = (48 + d) mod 65536"
    by (simp only: u p)
  also from d have "48 + d < 65536"
    by linarith
  then have "(48 + d) mod 65536 = 48 + d"
    by (rule mod_less)
  finally show ?thesis .
qed

lemma digitChar_inj: "a < 10 \<Longrightarrow> b < 10 \<Longrightarrow> digitChar a = digitChar b \<Longrightarrow> a = b"
proof -
  assume a: "a < 10" and b: "b < 10" and e: "digitChar a = digitChar b"
  from e have "unat (digitChar a) = unat (digitChar b)"
    by (rule arg_cong)
  then have "48 + a = 48 + b"
    by (simp only: unat_digitChar [OF a] unat_digitChar [OF b])
  then show ?thesis
    by (rule add_left_imp_eq)
qed

lemma toStringRadix_nonempty: "toStringRadix radix n \<noteq> []"
  by (subst toStringRadix.simps) simp

lemma numberToString_inj: "numberToString m = numberToString n \<Longrightarrow> m = n"
  unfolding numberToString_def
proof (induction m arbitrary: n rule: less_induct)
  case (less m)
  show ?case
  proof (cases "m < 10")
    case True
    show ?thesis
    proof (cases "n < 10")
      case n: True
      from less.prems True n have "digitChar m = digitChar n"
        by (simp add: toStringRadix.simps [of 10 m] toStringRadix.simps [of 10 n])
      with True n show ?thesis
        by (rule digitChar_inj)
    next
      case False
      with less.prems True have "toStringRadix 10 (n div 10) = []"
        by (simp add: toStringRadix.simps [of 10 m] toStringRadix.simps [of 10 n])
      with toStringRadix_nonempty show ?thesis
        by blast
    qed
  next
    case False
    show ?thesis
    proof (cases "n < 10")
      case True
      with less.prems False have "toStringRadix 10 (m div 10) = []"
        by (simp add: toStringRadix.simps [of 10 m] toStringRadix.simps [of 10 n])
      with toStringRadix_nonempty show ?thesis
        by blast
    next
      case n: False
      from less.prems False n
      have e: "toStringRadix 10 (m div 10) = toStringRadix 10 (n div 10)"
        and d: "digitChar (m mod 10) = digitChar (n mod 10)"
        by (simp_all add: toStringRadix.simps [of 10 m] toStringRadix.simps [of 10 n])
      from False have "m div 10 < m"
        by simp
      from less.IH [OF this e] have "m div 10 = n div 10" .
      moreover from d have "m mod 10 = n mod 10"
        by (auto intro: digitChar_inj)
      ultimately show ?thesis
        by (metis div_mult_mod_eq)
    qed
  qed
qed

lemma calculateChunkKey_inj: "calculateChunkKey key i = calculateChunkKey key j \<Longrightarrow> i = j"
  by (simp add: calculateChunkKey_def numberToString_inj)

lemma calculateChunkKey_not_metadata: "calculateChunkKey key i \<noteq> metadataKeyOf key'"
proof
  assume "calculateChunkKey key i = metadataKeyOf key'"
  then have "take 8 (calculateChunkKey key i) = take 8 (metadataKeyOf key')"
    by simp
  then show False
    by (simp add: calculateChunkKey_def metadataKeyOf_def lit_def)
qed

lemma node_set_get_other:
  "k' \<noteq> k \<Longrightarrow> node_getPluginData (snd (node_setPluginData nd k v)) k' = node_getPluginData nd k'"
  by (simp add: node_setPluginData_def node_getPluginData_def Let_def update_conv' delete_conv')

lemma node_set_get_same:
  "fst (node_setPluginData nd k v) = Inr () \<Longrightarrow>
   node_getPluginData (snd (node_setPluginData nd k v)) k = v"
  by (auto simp: node_setPluginData_def node_getPluginData_def Let_def update_conv' delete_conv'
      split: if_splits)

lemma node_set_id: "node_id (snd (node_setPluginData nd k v)) = node_id nd"
  by (simp add: node_setPluginData_def Let_def)

lemma storeChunks_other:
  "(\<forall>j. k \<noteq> calculateChunkKey key (index + j)) \<Longrightarrow>
   node_getPluginData (snd (storeChunks nd key cs index tot)) k = node_getPluginData nd k"
proof (induction cs arbitrary: nd index tot)
  case Nil
  then show ?case by simp
next
  case (Cons c cs)
  from Cons.prems have here: "k \<noteq> calculateChunkKey key index"
    by (metis add.right_neutral)
  from Cons.prems have later: "\<forall>j. k \<noteq> calculateChunkKey key (Suc index + j)"
    by (metis add_Suc_shift add_Suc_right add_Suc)
  show ?case
  proof (cases "validateChunkEntry (calculateChunkKey key index) c")
    case (Inl e)
    then show ?thesis by (simp add: Let_def)
  next
    case (Inr u)
    obtain r nd' where p: "node_setPluginData nd (calculateChunkKey key index) c = (r, nd')"
      by (cases "node_setPluginData nd (calculateChunkKey key index) c")
    from node_set_get_other [OF here, of nd c] p
    have g: "node_getPluginData nd' k = node_getPluginData nd k"
      by simp
    show ?thesis
    proof (cases r)
      case (Inl e)
      with Inr p g show ?thesis by (simp add: Let_def)
    next
      case r: (Inr u')
      from Cons.IH [OF later, of nd'] g Inr p r show ?thesis
        by (simp add: Let_def)
    qed
  qed
qed

lemma storeChunks_stored:
  "storeChunks nd key cs index tot = (Inr tot', nd') \<Longrightarrow> j < length cs \<Longrightarrow>
   node_getPluginData nd' (calculateChunkKey key (index + j)) = cs ! j"
proof (induction cs arbitrary: nd index tot j)
  case Nil
  then show ?case by simp
next
  case (Cons c cs)
  from Cons.prems(1) obtain nd1 where
    p: "node_setPluginData nd (calculateChunkKey key index) c = (Inr (), nd1)"
    and rest: "storeChunks nd1 key cs (Suc index)
                 (tot + (length (calculateChunkKey key index) + length c)) = (Inr tot', nd')"
    by (auto simp: Let_def split: sum.splits prod.splits)
  show ?case
  proof (cases j)
    case 0
    have "\<forall>j. calculateChunkKey key index \<noteq> calculateChunkKey key (Suc index + j)"
      by (auto dest: calculateChunkKey_inj)
    from storeChunks_other [OF this, of nd1 cs "tot + (length (calculateChunkKey key index) + length c)"] rest
    have "node_getPluginData nd' (calculateChunkKey key index) = node_getPluginData nd1 (calculateChunkKey key index)"
      by simp
    also from node_set_get_same [of nd "calculateChunkKey key index" c] p have "\<dots> = c"
      by simp
    finally show ?thesis
      using 0 by simp
  next
    case (Suc j')
    with Cons.prems(2) have "j' < length cs"
      by simp
    from Cons.IH [OF rest this] Suc show ?thesis
      by simp
  qed
qed

lemma storeChunks_node_id: "node_id (snd (storeChunks nd key cs index tot)) = node_id nd"
proof (induction cs arbitrary: nd index tot)
  case Nil
  then show ?case by simp
next
  case (Cons c cs)
  show ?case
    using Cons.IH node_set_id [of nd "calculateChunkKey key index" c]
    by (auto simp: Let_def split: sum.splits prod.splits)
qed


lemma getProp_singleMetadata:
  "getProp (singleMetadata h data) (lit ''chunked'') = Inr None"
  "getProp (singleMetadata h data) (lit ''checksum'') = Inr (Some (JStr (calculateChecksum data)))"
  by (simp_all add: getProp_def singleMetadata_def lit_def)

lemma getProp_chunkedMetadata:
  "getProp (chunkedMetadata h chunks data) (lit ''chunked'') = Inr (Some (JBool True))"
  "getProp (chunkedMetadata h chunks data) (lit ''totalChunks'') = Inr (Some (JNum (Finite (of_nat (length chunks)))))"
  "getProp (chunkedMetadata h chunks data) (lit ''checksum'') = Inr (Some (JStr (calculateChecksum data)))"
  by (simp_all add: getProp_def chunkedMetadata_def lit_def)

lemma storeSingle_read:
  assumes st: "storeSingle h key c data w1 = (Inr (), w')"
    and de: "decompress h c = Inr data"
    and js: "\<And>ms. JSON_stringify h (singleMetadata h data) = Some ms \<Longrightarrow>
               ms \<noteq> [] \<and> JSON_parse h ms = Some (singleMetadata h data)"
  shows "getPluginData h key w' = Inr (decodeValue h data)"
proof -
  from st obtain ms nd1 nd2 where
    ms: "JSON_stringify h (singleMetadata h data) = Some ms"
    and p1: "node_setPluginData (node w1) key c = (Inr (), nd1)"
    and p2: "node_setPluginData nd1 (metadataKeyOf key) ms = (Inr (), nd2)"
    and w': "node w' = nd2"
    by (auto simp: storeSingle_def Let_def split: option.splits sum.splits prod.splits)
  from js [OF ms] have ne: "ms \<noteq> []" and pa: "JSON_parse h ms = Some (singleMetadata h data)"
    by simp_all
  from node_set_get_same [of nd1 "metadataKeyOf key" ms] p2
  have gm: "node_getPluginData nd2 (metadataKeyOf key) = ms"
    by simp
  from node_set_get_other [of key "metadataKeyOf key" nd1 ms] p2 metadataKeyOf_neq [of key]
  have "node_getPluginData nd2 key = node_getPluginData nd1 key"
    by simp
  also from node_set_get_same [of "node w1" key c] p1 have "\<dots> = c"
    by simp
  finally have gk: "node_getPluginData nd2 key = c" .
  show ?thesis
    by (simp add: getPluginData_def getPluginDataTry_def w' gm gk ne pa de
        getProp_singleMetadata truthy_def validate_def)
qed

lemma storeChunked_read:
  assumes st: "storeChunked h key c data w1 = (Inr (), w')"
    and de: "decompress h c = Inr data"
    and js: "\<And>ms. JSON_stringify h (chunkedMetadata h (chunk c) data) = Some ms \<Longrightarrow>
               ms \<noteq> [] \<and> JSON_parse h ms = Some (chunkedMetadata h (chunk c) data)"
    and few: "length (chunk c) \<le> MAX_ARRAY_LENGTH"
  shows "getPluginData h key w' = Inr (decodeValue h data)"
proof -
  let ?chunks = "chunk c"
  from st obtain tot ms nd1 nd2 where
    sc: "storeChunks (node w1) key ?chunks 0 0 = (Inr tot, nd1)"
    and ms: "JSON_stringify h (chunkedMetadata h ?chunks data) = Some ms"
    and p2: "node_setPluginData nd1 (metadataKeyOf key) ms = (Inr (), nd2)"
    and w': "node w' = nd2"
    by (auto simp: storeChunked_def Let_def split: option.splits sum.splits prod.splits)
  from js [OF ms] have ne: "ms \<noteq> []" and pa: "JSON_parse h ms = Some (chunkedMetadata h ?chunks data)"
    by simp_all
  from node_set_get_same [of nd1 "metadataKeyOf key" ms] p2
  have gm: "node_getPluginData nd2 (metadataKeyOf key) = ms"
    by simp
  have gc: "node_getPluginData nd2 (calculateChunkKey key j) = ?chunks ! j" if "j < length ?chunks" for j
  proof -
    from node_set_get_other [of "calculateChunkKey key j" "metadataKeyOf key" nd1 ms] p2
      calculateChunkKey_not_metadata [of key j key]
    have "node_getPluginData nd2 (calculateChunkKey key j) = node_getPluginData nd1 (calculateChunkKey key j)"
      by simp
    also from storeChunks_stored [OF sc that] have "\<dots> = ?chunks ! j"
      by simp
    finally show ?thesis .
  qed
  have "map (\<lambda>i. node_getPluginData nd2 (calculateChunkKey key i)) [0..<length ?chunks]
          = map (\<lambda>i. ?chunks ! i) [0..<length ?chunks]"
    by (rule map_cong) (simp_all add: gc)
  then have rd: "map (\<lambda>i. node_getPluginData nd2 (calculateChunkKey key i)) [0..<length ?chunks] = ?chunks"
    by (simp add: map_nth)
  have nonempty: "[] \<notin> set ?chunks"
    using chunk_pieces [of "[]" c] by blast
  have lb: "loopBound h (Some (JNum (Finite (of_nat (length ?chunks))))) = Some (length ?chunks)"
    using few by (simp add: loopBound_def toNumeric_def MAX_ARRAY_LENGTH_def)
  from retrieveChunks_eq [OF lb few, of 0 "[]" nd2 key]
  have rc: "retrieveChunks h nd2 key (Some (JNum (Finite (of_nat (length ?chunks))))) 0 [] = Inr ?chunks"
    by (simp add: rd nonempty)
  show ?thesis
    by (simp add: getPluginData_def getPluginDataTry_def retrieveChunked_def rc
        w' gm ne pa de concat_chunk
        getProp_chunkedMetadata truthy_def validate_def)
qed

section \<open>The two forms of the write path\<close>

lemma node_set_error: "node_setPluginData nd k v = (Inl e, nd') \<Longrightarrow> e = NativeError"
  by (auto simp: node_setPluginData_def Let_def split: if_splits)

lemma validateChunkEntry_error:
  "validateChunkEntry k c = Inl e \<Longrightarrow> \<exists>a b. e = EntryTooLargeError a b"
  by (auto simp: validateChunkEntry_def Let_def split: if_splits)

lemma storeSingleAsync_eq:
  "fst (storeSingleAsync h key c d w) = fst (storeSingle h key c d w) \<and>
   (fst (storeSingle h key c d w) = Inr () \<longrightarrow> storeSingleAsync h key c d w = storeSingle h key c d w)"
  by (auto simp: storeSingleAsync_def storeSingle_def Let_def promiseAll_def executorPromise_def
      split: option.splits sum.splits prod.splits dest!: node_set_error)

lemma firstAtOnce_storeChunksAsync:
  "firstAtOnce (fst (storeChunksAsync nd key cs i)) = Some e \<Longrightarrow> \<exists>a b. e = EntryTooLargeError a b"
proof (induction cs arbitrary: nd i)
  case Nil
  then show ?case by simp
next
  case (Cons c cs)
  show ?case
  proof (cases "validateChunkEntry (calculateChunkKey key i) c")
    case (Inl e')
    with Cons.prems have "e = e'"
      by (simp add: Let_def split: prod.splits)
    with Inl show ?thesis
      by (auto dest: validateChunkEntry_error)
  next
    case (Inr u)
    obtain r nd1 where p: "node_setPluginData nd (calculateChunkKey key i) c = (r, nd1)"
      by (cases "node_setPluginData nd (calculateChunkKey key i) c")
    from Cons.prems Inr p have "firstAtOnce (fst (storeChunksAsync nd1 key cs (i + 1))) = Some e"
      by (cases r) (simp_all add: Let_def split: prod.splits)
    then show ?thesis
      by (rule Cons.IH)
  qed
qed

lemma storeChunks_async:
  "case storeChunks nd key cs i t of
     (Inr t', ndS) \<Rightarrow>
        firstAtOnce (fst (storeChunksAsync nd key cs i)) = None \<and>
        firstLater (fst (storeChunksAsync nd key cs i)) = None \<and>
        snd (storeChunksAsync nd key cs i) = ndS \<and> t' = chunksUsage key cs i t
   | (Inl e, ndS) \<Rightarrow>
        firstAtOnce (fst (storeChunksAsync nd key cs i)) = Some e \<or>
        (e = NativeError \<and> firstLater (fst (storeChunksAsync nd key cs i)) = Some NativeError \<and>
         (firstAtOnce (fst (storeChunksAsync nd key cs i)) = None \<or>
          (\<exists>a b. firstAtOnce (fst (storeChunksAsync nd key cs i)) = Some (EntryTooLargeError a b))))"
proof (induction cs arbitrary: nd i t)
  case Nil
  then show ?case by simp
next
  case (Cons c cs)
  show ?case
  proof (cases "validateChunkEntry (calculateChunkKey key i) c")
    case (Inl e)
    then show ?thesis
      by (simp add: Let_def split: prod.splits)
  next
    case (Inr u)
    obtain r nd1 where p: "node_setPluginData nd (calculateChunkKey key i) c = (r, nd1)"
      by (cases "node_setPluginData nd (calculateChunkKey key i) c")
    obtain ps ndA where a: "storeChunksAsync nd1 key cs (i + 1) = (ps, ndA)"
      by (cases "storeChunksAsync nd1 key cs (i + 1)")
    show ?thesis
    proof (cases r)
      case (Inl e)
      with p have e: "e = NativeError"
        by (auto dest: node_set_error)
      have "firstAtOnce ps = None \<or> (\<exists>a b. firstAtOnce ps = Some (EntryTooLargeError a b))"
        using firstAtOnce_storeChunksAsync [of nd1 key cs "i + 1"] a
        by (cases "firstAtOnce ps") auto
      with Inr p a Inl e show ?thesis
        by (auto simp: Let_def)
    next
      case r: (Inr u')
      from Cons.IH [of nd1 "i + 1" "t + (length (calculateChunkKey key i) + length c)"] Inr p a r
      show ?thesis
        by (auto simp: Let_def split: prod.splits sum.splits)
    qed
  qed
qed


lemma storeChunkedAsync_eq:
  "(fst (storeChunked h key c d w) = Inr () \<longrightarrow> storeChunkedAsync h key c d w = storeChunked h key c d w) \<and>
   (\<forall>e. fst (storeChunked h key c d w) = Inl e \<longrightarrow>
      fst (storeChunkedAsync h key c d w) = Inl e \<or>
      (e = NativeError \<and> (\<exists>a b. fst (storeChunkedAsync h key c d w) = Inl (EntryTooLargeError a b))))"
proof -
  obtain r ndS where s: "storeChunks (node w) key (chunk c) 0 0 = (r, ndS)"
    by (cases "storeChunks (node w) key (chunk c) 0 0")
  obtain ps ndA where a: "storeChunksAsync (node w) key (chunk c) 0 = (ps, ndA)"
    by (cases "storeChunksAsync (node w) key (chunk c) 0")
  show ?thesis
  proof (cases r)
    case (Inr t')
    with storeChunks_async [of "node w" key "chunk c" 0 0] s a
    have "firstAtOnce ps = None" "firstLater ps = None" "ndA = ndS" "t' = chunksUsage key (chunk c) 0 0"
      by simp_all
    with s a Inr show ?thesis
      by (auto simp: storeChunked_def storeChunkedAsync_def promiseAll_def Let_def
          split: option.splits sum.splits prod.splits)
  next
    case (Inl e)
    with storeChunks_async [of "node w" key "chunk c" 0 0] s a
    have "firstAtOnce ps = Some e \<or>
        (e = NativeError \<and> firstLater ps = Some NativeError \<and>
         (firstAtOnce ps = None \<or> (\<exists>a b. firstAtOnce ps = Some (EntryTooLargeError a b))))"
      by simp
    with s a Inl show ?thesis
      by (auto simp: storeChunked_def storeChunkedAsync_def promiseAll_def Let_def)
  qed
qed

lemma rethrowWrite_entry: "rethrowWrite (EntryTooLargeError a b) = EntryTooLargeError a b"
  by (simp add: rethrowWrite_def)

lemma rethrowWrite_native: "rethrowWrite NativeError = CompressionError compress_op"
  by (simp add: rethrowWrite_def)

lemma setPluginDataAsyncTry_eq:
  assumes "compressAsync h data = compress h data"
  shows "(fst (setPluginDataTry h key data w) = Inr () \<longrightarrow>
            setPluginDataAsyncTry h key data w = setPluginDataTry h key data w) \<and>
         (\<forall>e. fst (setPluginDataTry h key data w) = Inl e \<longrightarrow>
            fst (setPluginDataAsyncTry h key data w) = Inl e \<or>
            (e = NativeError \<and>
             (\<exists>a b. fst (setPluginDataAsyncTry h key data w) = Inl (EntryTooLargeError a b))))"
proof (cases "compress h data")
  case (Inl e)
  with assms show ?thesis
    by (simp add: setPluginDataTry_def setPluginDataAsyncTry_def)
next
  case (Inr c)
  let ?w1 = "if getKeyUsage (usage w) (node_id (node w)) key > 0
             then w\<lparr>usage := removeUsage (usage w) (node_id (node w)) key\<rparr> else w"
  show ?thesis
  proof (cases "canStore (usage w) (length c + 200)")
    case False
    with Inr assms show ?thesis
      by (simp add: setPluginDataTry_def setPluginDataAsyncTry_def)
  next
    case True
    show ?thesis
    proof (cases "int (length c) > getSafeChunkSize key")
      case big: True
      have "setPluginDataTry h key data w = storeChunked h key c data ?w1"
        "setPluginDataAsyncTry h key data w = storeChunkedAsync h key c data ?w1"
        using Inr assms True big by (simp_all add: setPluginDataTry_def setPluginDataAsyncTry_def Let_def)
      with storeChunkedAsync_eq [of h key c data ?w1] show ?thesis
        by simp
    next
      case small: False
      have "setPluginDataTry h key data w = storeSingle h key c data ?w1"
        "setPluginDataAsyncTry h key data w = storeSingleAsync h key c data ?w1"
        using Inr assms True small by (simp_all add: setPluginDataTry_def setPluginDataAsyncTry_def Let_def)
      with storeSingleAsync_eq [of h key c data ?w1] show ?thesis
        by auto
    qed
  qed
qed

section \<open>The two forms on eleven chunks\<close>

lemma sliceLoop_replicate:
  "0 < step \<Longrightarrow> i \<le> n \<Longrightarrow>
   sliceLoop step (replicate (n * step) x) (i * step) acc = acc @ replicate (n - i) (replicate step x)"
proof (induction "n - i" arbitrary: i acc)
  case 0
  then show ?case
    by (subst sliceLoop.simps) simp
next
  case (Suc m)
  then have lt: "i < n" and m: "m = n - Suc i"
    by simp_all
  from lt have "Suc i * step \<le> n * step"
    by (simp add: Suc_leI mult_le_mono1 del: mult_Suc)
  then have "step \<le> n * step - i * step"
    by simp
  then have sl: "slice (replicate (n * step) x) (i * step) (i * step + step) = replicate step x"
    by (simp add: slice_def min_def)
  from lt Suc.prems have inside: "i * step < length (replicate (n * step) x)"
    by simp
  have "sliceLoop step (replicate (n * step) x) (i * step) acc
        = sliceLoop step (replicate (n * step) x) (Suc i * step) (acc @ [replicate step x])"
    using inside Suc.prems(1) sl by (subst sliceLoop.simps) (simp add: add.commute)
  also from Suc.hyps(1) [OF m Suc.prems(1)] lt
  have "\<dots> = (acc @ [replicate step x]) @ replicate (n - Suc i) (replicate step x)"
    by simp
  also from lt have "\<dots> = acc @ replicate (n - i) (replicate step x)"
    by (simp add: Suc_diff_Suc flip: replicate_Suc)
  finally show ?case .
qed

lemma chunk_replicate: "chunk (replicate (n * CHUNK_SIZE) x) = replicate n (replicate CHUNK_SIZE x)"
  using sliceLoop_replicate [of CHUNK_SIZE 0 n x "[]"] by (simp add: chunk_def CHUNK_SIZE_pos)

lemma firstAtOnce_storeChunksAsync_Cons:
  "firstAtOnce (fst (storeChunksAsync nd key (c # cs) i)) =
     (case validateChunkEntry (calculateChunkKey key i) c of
        Inl e \<Rightarrow> Some e
      | Inr u \<Rightarrow> firstAtOnce (fst (storeChunksAsync
                    (snd (node_setPluginData nd (calculateChunkKey key i) c)) key cs (i + 1))))"
  by (cases "node_setPluginData nd (calculateChunkKey key i) c")
     (auto simp: Let_def split: sum.splits prod.splits)

lemma bigKey_valid: "bigKey \<noteq> []" "\<not> startsWith bigKey (lit ''__fpdu_'')"
proof -
  show "bigKey \<noteq> []"
    by (simp add: bigKey_def)
  show "\<not> startsWith bigKey (lit ''__fpdu_'')"
  proof
    assume "startsWith bigKey (lit ''__fpdu_'')"
    then have "take (length (lit ''__fpdu_'')) bigKey = lit ''__fpdu_''"
      by (simp add: startsWith_def)
    then have "hd (take (length (lit ''__fpdu_'')) bigKey) = hd (lit ''__fpdu_'')"
      by simp
    moreover have "hd (take (length (lit ''__fpdu_'')) bigKey) = 107"
      by (simp add: bigKey_def lit_def)
    ultimately have "(107 :: 16 word) = hd (lit ''__fpdu_'')"
      by simp
    then show False
      by (simp add: lit_def)
  qed
qed

lemma big_compress: "compress (simHost []) bigData = Inr bigData" "compressAsync (simHost []) bigData = Inr bigData"
  by (simp_all add: compress_def compressAsync_def simHost_def uint8ArrayToBase64_eq bigData_def)

lemma big_len: "length bigKey = 15345" "length bigData = 957440"
  by (simp_all add: bigKey_def bigData_def CHUNK_SIZE_def)


lemma big_chunks: "chunk bigData = replicate 11 (replicate CHUNK_SIZE 120)"
  unfolding bigData_def by (rule chunk_replicate)

lemma eleven: "replicate 11 c = [c, c, c, c, c, c, c, c, c, c, c]"
  by (simp add: numeral_eq_Suc)

lemma big_safe: "int (length bigData) > getSafeChunkSize bigKey"
  by (simp add: getSafeChunkSize_def calculateChunkKey_def numberToString_def toStringRadix.simps
      digitChar_def lit_def big_len MAX_ENTRY_SIZE_def)

lemma chunkKey_len: "length (calculateChunkKey bigKey i) = 15359 + length (numberToString i)"
  by (simp add: calculateChunkKey_def lit_def big_len)

lemma big_atOnce:
  "firstAtOnce (fst (storeChunksAsync nd bigKey (chunk bigData) 0)) = Some (EntryTooLargeError 102401 102400)"
  by (simp add: big_chunks eleven firstAtOnce_storeChunksAsync_Cons validateChunkEntry_def chunkKey_len
      numberToString_def toStringRadix.simps CHUNK_SIZE_def MAX_ENTRY_SIZE_def
      del: storeChunksAsync.simps)

lemma big_async:
  "fst (setPluginDataAsync (simHost []) bigKey (JStr bigData) crowdedWorld)
     = Inl (EntryTooLargeError 102401 102400)"
proof -
  obtain ps nd1 where a: "storeChunksAsync (node crowdedWorld) bigKey (chunk bigData) 0 = (ps, nd1)"
    by (cases "storeChunksAsync (node crowdedWorld) bigKey (chunk bigData) 0")
  with big_atOnce [of "node crowdedWorld"]
  have "firstAtOnce ps = Some (EntryTooLargeError 102401 102400)"
    by simp
  with a have "fst (storeChunkedAsync (simHost []) bigKey bigData bigData crowdedWorld)
          = Inl (EntryTooLargeError 102401 102400)"
    by (simp add: storeChunkedAsync_def promiseAll_def Let_def)
  moreover have "setPluginDataAsyncTry (simHost []) bigKey bigData crowdedWorld
          = storeChunkedAsync (simHost []) bigKey bigData bigData crowdedWorld"
    using big_safe
    by (simp add: setPluginDataAsyncTry_def big_compress big_len canStore_def getCurrentUsage_def
        MAX_TOTAL_QUOTA_def getKeyUsage_def crowdedWorld_def)
  ultimately have "fst (setPluginDataAsyncTry (simHost []) bigKey bigData crowdedWorld)
          = Inl (EntryTooLargeError 102401 102400)"
    by simp
  then obtain w' where "setPluginDataAsyncTry (simHost []) bigKey bigData crowdedWorld
          = (Inl (EntryTooLargeError 102401 102400), w')"
    by (cases "setPluginDataAsyncTry (simHost []) bigKey bigData crowdedWorld") simp
  then show ?thesis
    using bigKey_valid
    by (simp add: setPluginDataAsync_def serialize_def simHost_def big_len MAX_DATA_SIZE_def
        rethrowWrite_def)
qed

lemma big_put:
  "fst (node_setPluginData (node crowdedWorld) (calculateChunkKey bigKey 0) (replicate CHUNK_SIZE 120))
     = Inl NativeError"
proof -
  have k0: "numberToString 0 = [48]"
    by (simp add: numberToString_def toStringRadix.simps digitChar_def)
  have l: "length (calculateChunkKey bigKey 0) = 15360"
    by (simp add: chunkKey_len k0)
  have m: "map_of (storage (node crowdedWorld)) (calculateChunkKey bigKey 0) = None"
    by (simp add: crowdedWorld_def calculateChunkKey_def lit_def)
  have u: "nodeUsage (node crowdedWorld) = 1048570"
    by (simp add: crowdedWorld_def)
  show ?thesis
    by (simp add: node_setPluginData_def Let_def l m u CHUNK_SIZE_def)
qed

lemma big_sync:
  "fst (setPluginData (simHost []) bigKey (JStr bigData) crowdedWorld)
     = Inl (CompressionError compress_op)"
proof -
  have k0: "numberToString 0 = [48]"
    by (simp add: numberToString_def toStringRadix.simps digitChar_def)
  have c: "chunk bigData = replicate CHUNK_SIZE 120 # replicate 10 (replicate CHUNK_SIZE 120)"
    by (simp add: big_chunks numeral_eq_Suc)
  from big_put obtain nd' where
    p: "node_setPluginData (node crowdedWorld) (calculateChunkKey bigKey 0) (replicate CHUNK_SIZE 120)
          = (Inl NativeError, nd')"
    by (cases "node_setPluginData (node crowdedWorld) (calculateChunkKey bigKey 0) (replicate CHUNK_SIZE 120)")
       simp
  have v: "validateChunkEntry (calculateChunkKey bigKey 0) (replicate CHUNK_SIZE 120) = Inr ()"
    by (simp add: validateChunkEntry_def chunkKey_len k0 CHUNK_SIZE_def MAX_ENTRY_SIZE_def)
  have "storeChunks (node crowdedWorld) bigKey (chunk bigData) 0 0 = (Inl NativeError, nd')"
    unfolding c by (simp add: p v)
  then have "fst (storeChunked (simHost []) bigKey bigData bigData crowdedWorld) = Inl NativeError"
    by (simp add: storeChunked_def)
  moreover have "setPluginDataTry (simHost []) bigKey bigData crowdedWorld
          = storeChunked (simHost []) bigKey bigData bigData crowdedWorld"
    using big_safe
    by (simp add: setPluginDataTry_def big_compress big_len canStore_def getCurrentUsage_def
        MAX_TOTAL_QUOTA_def getKeyUsage_def crowdedWorld_def)
  ultimately have "fst (setPluginDataTry (simHost []) bigKey bigData crowdedWorld) = Inl NativeError"
    by simp
  then obtain w' where "setPluginDataTry (simHost []) bigKey bigData crowdedWorld = (Inl NativeError, w')"
    by (cases "setPluginDataTry (simHost []) bigKey bigData crowdedWorld") simp
  then show ?thesis
    using bigKey_valid
    by (simp add: setPluginData_def serialize_def simHost_def big_len MAX_DATA_SIZE_def
        rethrowWrite_def)
qed

section \<open>The claims\<close>

text \<open>
  C8. For every payload string \<open>P\<close>, \<open>chunk(P)\<close> returns an ordered list of pieces
  whose concatenation in order is \<open>P\<close>; each piece has at most \<open>CHUNK_SIZE\<close> code units,
  and every piece but possibly the last has exactly \<open>CHUNK_SIZE\<close>; the empty payload
  gives the empty list. The result is a function of the payload alone. (No piece is
  empty either, which the read path relies on.)
\<close>

theorem chunk_layout:
  "concat (chunk P) = P \<and>
   (\<forall>c \<in> set (chunk P). length c \<le> CHUNK_SIZE \<and> c \<noteq> []) \<and>
   (\<forall>c \<in> set (butlast (chunk P)). length c = CHUNK_SIZE) \<and>
   chunk [] = []"
  using concat_chunk chunk_pieces chunk_butlast chunk_Nil by blast

text \<open>
  A payload of \<open>CHUNK_SIZE + 3\<close> code units is cut into a full piece and a piece of
  three.
\<close>

theorem chunk_layout_witness:
  "chunk (replicate CHUNK_SIZE 120 @ lit ''abc'') = [replicate CHUNK_SIZE 120, lit ''abc''] \<and>
   length (replicate CHUNK_SIZE (120 :: 16 word)) = CHUNK_SIZE \<and>
   length (lit ''abc'') \<le> CHUNK_SIZE \<and>
   concat (chunk (replicate CHUNK_SIZE 120 @ lit ''abc'')) = replicate CHUNK_SIZE 120 @ lit ''abc''"
proof -
  let ?P = "replicate CHUNK_SIZE (120 :: 16 word) @ lit ''abc''"
  have l: "length (lit ''abc'') \<le> CHUNK_SIZE" "0 < length (lit ''abc'')"
    by (simp_all add: lit_def CHUNK_SIZE_def)
  have "sliceLoop CHUNK_SIZE ?P 0 [] = sliceLoop CHUNK_SIZE ?P CHUNK_SIZE [replicate CHUNK_SIZE 120]"
    by (subst sliceLoop.simps) (simp add: slice_def CHUNK_SIZE_nonzero)
  also have "\<dots> = sliceLoop CHUNK_SIZE ?P (CHUNK_SIZE + CHUNK_SIZE)
                      [replicate CHUNK_SIZE 120, lit ''abc'']"
    using l by (subst sliceLoop.simps) (simp add: slice_def CHUNK_SIZE_nonzero)
  also have "\<dots> = [replicate CHUNK_SIZE 120, lit ''abc'']"
    using l by (subst sliceLoop.simps) simp
  finally have c: "chunk ?P = [replicate CHUNK_SIZE 120, lit ''abc'']"
    by (simp add: chunk_def)
  with l chunk_layout [of ?P] show ?thesis
    by simp
qed

text \<open>
  C3. A call \<open>setPluginData(K, V)\<close> with \<open>K\<close> empty or starting with the reserved
  prefix \<open>__fpdu_\<close> throws \<open>InvalidKeyError\<close> of the key, whatever the value, the
  platform and the state are (so before any other check), and leaves the node and the
  quota table as they were.
\<close>

theorem setPluginData_invalid_key:
  assumes "key = [] \<or> startsWith key (lit ''__fpdu_'')"
  shows "setPluginData h key v w = (Inl (InvalidKeyError key), w)"
  using assms by (simp add: setPluginData_def)

theorem setPluginData_invalid_key_witness:
  "setPluginData (simHost []) [] (JStr (lit ''data'')) (emptyWorld (lit ''n1''))
     = (Inl (InvalidKeyError []), emptyWorld (lit ''n1'')) \<and>
   startsWith (lit ''__fpdu_test'') (lit ''__fpdu_'') \<and>
   setPluginData (simHost []) (lit ''__fpdu_test'') (JBigInt 1) (emptyWorld (lit ''n1''))
     = (Inl (InvalidKeyError (lit ''__fpdu_test'')), emptyWorld (lit ''n1''))"
proof -
  have p: "startsWith (lit ''__fpdu_test'') (lit ''__fpdu_'')"
    by (simp add: startsWith_def lit_def)
  show ?thesis
    using p
      setPluginData_invalid_key [of "[]" "simHost []" "JStr (lit ''data'')" "emptyWorld (lit ''n1'')"]
      setPluginData_invalid_key [of "lit ''__fpdu_test''" "simHost []" "JBigInt 1" "emptyWorld (lit ''n1'')"]
    by simp
qed

text \<open>
  C4. For a valid key and a value whose serialized text has a \<open>Blob\<close> size above
  \<open>5 * 1024 * 1024\<close> bytes, \<open>setPluginData\<close> throws \<open>DataTooLargeError\<close> of that size
  and changes nothing. The compressor has not run by then: the outcome is the same
  whatever \<open>TextEncoder\<close>, \<open>gzipSync\<close> and \<open>btoa\<close> would do. A text at or below the
  cap never gives \<open>DataTooLargeError\<close>.
\<close>

theorem setPluginData_size_cap:
  assumes "key \<noteq> []" and "\<not> startsWith key (lit ''__fpdu_'')"
    and "serialize h v = Some data"
  shows "(MAX_DATA_SIZE < blobSize h data \<longrightarrow>
            setPluginData (h\<lparr>textEncode := enc, gzipSync := gz, btoa := b64\<rparr>) key v w
              = (Inl (DataTooLargeError (blobSize h data)), w)) \<and>
         (blobSize h data \<le> MAX_DATA_SIZE \<longrightarrow>
            fst (setPluginData h key v w) \<noteq> Inl (DataTooLargeError n)) \<and>
         MAX_DATA_SIZE = 5 * 1024 * 1024"
proof -
  have "serialize (h\<lparr>textEncode := enc, gzipSync := gz, btoa := b64\<rparr>) v = Some data"
    using assms(3) by (simp add: serialize_def split: jsvalue.splits)
  then have big: "MAX_DATA_SIZE < blobSize h data \<Longrightarrow>
      setPluginData (h\<lparr>textEncode := enc, gzipSync := gz, btoa := b64\<rparr>) key v w
        = (Inl (DataTooLargeError (blobSize h data)), w)"
    using assms(1,2) by (simp add: setPluginData_def)
  have small: "blobSize h data \<le> MAX_DATA_SIZE \<Longrightarrow>
      fst (setPluginData h key v w) \<noteq> Inl (DataTooLargeError n)"
    using assms
    by (auto simp: setPluginData_def rethrowWrite_def split: prod.splits sum.splits error.splits)
  from big small show ?thesis
    by (simp add: MAX_DATA_SIZE_def)
qed

text \<open>
  On the stand-in platform a string of \<open>5242881\<close> code units is refused, also with a
  \<open>gzipSync\<close> that throws, and one of \<open>5242880\<close> is not refused for its size.
\<close>

theorem setPluginData_size_cap_witness:
  "setPluginData (simHost [] \<lparr>textEncode := map ucast, gzipSync := (\<lambda>bytes. None), btoa := Some\<rparr>)
       (lit ''x'') (JStr (replicate 5242881 120)) (emptyWorld (lit ''n1''))
     = (Inl (DataTooLargeError 5242881), emptyWorld (lit ''n1'')) \<and>
   fst (setPluginData (simHost []) (lit ''x'') (JStr (replicate 5242880 120)) (emptyWorld (lit ''n1'')))
     \<noteq> Inl (DataTooLargeError 5242880)"
proof -
  have k: "lit ''x'' \<noteq> []" "\<not> startsWith (lit ''x'') (lit ''__fpdu_'')"
    by (simp_all add: startsWith_def lit_def)
  have s: "serialize (simHost []) (JStr (replicate m 120)) = Some (replicate m 120)" for m
    by (simp add: serialize_def)
  have b: "blobSize (simHost []) (replicate m 120) = m" for m
    by (simp add: simHost_def)
  note big = setPluginData_size_cap [where h = "simHost []" and key = "lit ''x''"
      and v = "JStr (replicate 5242881 120)" and data = "replicate 5242881 120"
      and enc = "map ucast" and gz = "\<lambda>bytes. None" and ?b64.0 = Some
      and w = "emptyWorld (lit ''n1'')" and n = 5242881, OF k s]
  note small = setPluginData_size_cap [where h = "simHost []" and key = "lit ''x''"
      and v = "JStr (replicate 5242880 120)" and data = "replicate 5242880 120"
      and enc = "map ucast" and gz = "\<lambda>bytes. None" and ?b64.0 = Some
      and w = "emptyWorld (lit ''n1'')" and n = 5242880, OF k s]
  from big small show ?thesis
    by (simp add: b MAX_DATA_SIZE_def)
qed

text \<open>
  C5. When the quota table cannot afford the estimated footprint, the length of the
  compressed text plus 200, \<open>setPluginData\<close> throws \<open>QuotaExceededError\<close> with that
  estimate and with the remaining quota the table reports at the call, and leaves the
  node and the table as they were: nothing has been written and nothing removed.
\<close>

theorem setPluginData_quota_exceeded:
  assumes "key \<noteq> []" and "\<not> startsWith key (lit ''__fpdu_'')"
    and "serialize h v = Some data"
    and "blobSize h data \<le> MAX_DATA_SIZE"
    and "compress h data = Inr compressed"
    and "\<not> canStore (usage w) (length compressed + 200)"
  shows "setPluginData h key v w
           = (Inl (QuotaExceededError (length compressed + 200) (getRemainingQuota (usage w))), w)"
  using assms by (simp add: setPluginData_def setPluginDataTry_def rethrowWrite_def)

text \<open>
  Two owners hold all but 880 bytes of the quota; a third store of 1000 code units needs
  1200 and is refused with both figures.
\<close>

theorem setPluginData_quota_exceeded_witness:
  "getRemainingQuota [(lit ''a'', [(lit ''k'', 3000000)]), (lit ''b'', [(lit ''k'', 2242000)])] = 880 \<and>
   setPluginData (simHost []) (lit ''third'') (JStr (replicate 1000 120))
       \<lparr>node = \<lparr>node_id = lit ''c'', storage = [], nodeUsage = 0\<rparr>,
        usage = [(lit ''a'', [(lit ''k'', 3000000)]), (lit ''b'', [(lit ''k'', 2242000)])]\<rparr>
     = (Inl (QuotaExceededError 1200 880),
        \<lparr>node = \<lparr>node_id = lit ''c'', storage = [], nodeUsage = 0\<rparr>,
         usage = [(lit ''a'', [(lit ''k'', 3000000)]), (lit ''b'', [(lit ''k'', 2242000)])]\<rparr>)"
proof -
  let ?u = "[(lit ''a'', [(lit ''k'', 3000000 :: nat)]), (lit ''b'', [(lit ''k'', 2242000)])]"
  let ?w = "\<lparr>node = \<lparr>node_id = lit ''c'', storage = [], nodeUsage = 0\<rparr>, usage = ?u\<rparr>"
  have k: "lit ''third'' \<noteq> []" "\<not> startsWith (lit ''third'') (lit ''__fpdu_'')"
    by (simp_all add: startsWith_def lit_def)
  have s: "serialize (simHost []) (JStr (replicate 1000 120)) = Some (replicate 1000 120)"
    by (simp add: serialize_def)
  have b: "blobSize (simHost []) (replicate 1000 120) \<le> MAX_DATA_SIZE"
    by (simp add: simHost_def MAX_DATA_SIZE_def)
  have c: "compress (simHost []) (replicate 1000 120) = Inr (replicate 1000 120)"
    by (simp add: compress_def simHost_def uint8ArrayToBase64_eq)
  have r: "getRemainingQuota ?u = 880"
    by (simp add: getRemainingQuota_def getCurrentUsage_def MAX_TOTAL_QUOTA_def)
  have q: "\<not> canStore (usage ?w) (length (replicate 1000 (120 :: 16 word)) + 200)"
    by (simp add: canStore_def getCurrentUsage_def MAX_TOTAL_QUOTA_def)
  show ?thesis
    using setPluginData_quota_exceeded [OF k s b c q] r by simp
qed

text \<open>
  C6. On a managed key (its metadata record is not empty) every exception of
  \<open>getPluginData\<close> is \<open>DataCorruptedError\<close> of that key, whatever went wrong;
  metadata that does not parse gives it; and on the chunked path the records of the
  indices \<open>0, 1, \<dots>\<close> below \<open>totalChunks\<close> are read in that order and joined: a
  missing or empty one gives the error, as do a failing decompression and a checksum
  that differs from the metadata's, and otherwise the decoded text is returned. A
  \<open>totalChunks\<close> without a bound, or with more rounds than an array has elements, gives
  the error too.
\<close>

theorem getPluginData_managed:
  assumes "node_getPluginData (node w) (metadataKeyOf key) = metadataStr" and "metadataStr \<noteq> []"
  shows "(\<forall>e. getPluginData h key w = Inl e \<longrightarrow> e = DataCorruptedError key) \<and>
         (JSON_parse h metadataStr = None \<longrightarrow> getPluginData h key w = Inl (DataCorruptedError key)) \<and>
         (\<forall>metadata chunked totalChunks checksum.
            JSON_parse h metadataStr = Some metadata \<and>
            getProp metadata (lit ''chunked'') = Inr chunked \<and> truthy chunked \<and>
            getProp metadata (lit ''totalChunks'') = Inr totalChunks \<and>
            getProp metadata (lit ''checksum'') = Inr checksum \<longrightarrow>
            getPluginData h key w =
              (case loopBound h totalChunks of
                 None \<Rightarrow> Inl (DataCorruptedError key)
               | Some n \<Rightarrow>
                   if MAX_ARRAY_LENGTH < n then Inl (DataCorruptedError key)
                   else
                     let chunks = map (\<lambda>i. node_getPluginData (node w) (calculateChunkKey key i))
                                    [0..<n]
                     in if [] \<in> set chunks then Inl (DataCorruptedError key)
                        else case decompress h (concat chunks) of
                               Inl e \<Rightarrow> Inl (DataCorruptedError key)
                             | Inr decompressed \<Rightarrow>
                                 if validate decompressed checksum then Inr (decodeValue h decompressed)
                                 else Inl (DataCorruptedError key)))"
proof (intro conjI allI impI)
  fix e assume "getPluginData h key w = Inl e"
  with assms show "e = DataCorruptedError key"
    by (auto simp: getPluginData_def split: sum.splits dest: getPluginDataTry_error)
next
  assume "JSON_parse h metadataStr = None"
  with assms show "getPluginData h key w = Inl (DataCorruptedError key)"
    by (simp add: getPluginData_def getPluginDataTry_def rethrowRead_def)
next
  fix metadata chunked totalChunks checksum
  assume a: "JSON_parse h metadataStr = Some metadata \<and>
            getProp metadata (lit ''chunked'') = Inr chunked \<and> truthy chunked \<and>
            getProp metadata (lit ''totalChunks'') = Inr totalChunks \<and>
            getProp metadata (lit ''checksum'') = Inr checksum"
  let ?closed = "\<lambda>n. let chunks = map (\<lambda>i. node_getPluginData (node w) (calculateChunkKey key i))
                                    [0..<n]
                     in if [] \<in> set chunks then Inl (DataCorruptedError key)
                        else case decompress h (concat chunks) of
                               Inl e \<Rightarrow> Inl (DataCorruptedError key)
                             | Inr decompressed \<Rightarrow>
                                 if validate decompressed checksum then Inr (decodeValue h decompressed)
                                 else Inl (DataCorruptedError key)"
  have over: "getPluginData h key w = Inl (DataCorruptedError key)"
    if "\<forall>n. loopBound h totalChunks = Some n \<longrightarrow> MAX_ARRAY_LENGTH < n"
  proof -
    from retrieveChunks_overflow [OF that, of 0 "[]" "node w" key]
    obtain e where e: "retrieveChunks h (node w) key totalChunks 0 [] = Inl e"
      by auto
    from retrieveChunks_kinds [OF e] have "rethrowRead key e = DataCorruptedError key"
      by (auto simp: rethrowRead_def)
    with assms a e show ?thesis
      by (simp add: getPluginData_def getPluginDataTry_def retrieveChunked_def)
  qed
  show "getPluginData h key w =
          (case loopBound h totalChunks of
             None \<Rightarrow> Inl (DataCorruptedError key)
           | Some n \<Rightarrow> if MAX_ARRAY_LENGTH < n then Inl (DataCorruptedError key) else ?closed n)"
  proof (cases "loopBound h totalChunks")
    case None
    with over show ?thesis
      by simp
  next
    case (Some n)
    show ?thesis
    proof (cases "MAX_ARRAY_LENGTH < n")
      case True
      with Some over show ?thesis
        by simp
    next
      case False
      then have n: "n \<le> MAX_ARRAY_LENGTH"
        by simp
      from retrieveChunks_eq [OF Some n, of 0 "[]" "node w" key]
      have "retrieveChunks h (node w) key totalChunks 0 [] =
              (if [] \<in> set (map (\<lambda>i. node_getPluginData (node w) (calculateChunkKey key i)) [0..<n])
               then Inl (DataCorruptedError key)
               else Inr (map (\<lambda>i. node_getPluginData (node w) (calculateChunkKey key i)) [0..<n]))"
        by simp
      with assms a Some False show ?thesis
        by (auto simp: getPluginData_def getPluginDataTry_def retrieveChunked_def
            rethrowRead_def Let_def split: sum.splits dest!: decompress_error)
    qed
  qed
qed

text \<open>
  The chunked key \<open>k\<close> reads back as \<open>hello\<close>; with its second chunk record erased
  the read throws.
\<close>

theorem getPluginData_managed_witness:
  \<open>getPluginData (simHost [chunkedDocument]) (lit ''k'') chunkedWorld = Inr (JStr (lit ''hello'')) \<and>
   getPluginData (simHost [chunkedDocument]) (lit ''k'')
     (chunkedWorld\<lparr>node := snd (node_setPluginData (node chunkedWorld) (lit ''__fpdu_chunk_k_1'') [])\<rparr>)
     = Inl (DataCorruptedError (lit ''k''))\<close>
proof -
  let ?h = "simHost [chunkedDocument]"
  let ?ms = \<open>lit ''{"compressed":true,"chunked":true,"totalChunks":2,"checksum":"1n1e4y","size":5}''\<close>
  let ?w' = "chunkedWorld\<lparr>node := snd (node_setPluginData (node chunkedWorld) (lit ''__fpdu_chunk_k_1'') [])\<rparr>"
  have m: "node_getPluginData (node chunkedWorld) (metadataKeyOf (lit ''k'')) = ?ms"
    and m': "node_getPluginData (node ?w') (metadataKeyOf (lit ''k'')) = ?ms"
    by (simp_all add: chunkedWorld_def run_simps)
  have ne: "?ms \<noteq> []"
    by (simp add: lit_def)
  have p: "JSON_parse ?h ?ms = Some chunkedDocument \<and>
           getProp chunkedDocument (lit ''chunked'') = Inr (Some (JBool True)) \<and>
           truthy (Some (JBool True)) \<and>
           getProp chunkedDocument (lit ''totalChunks'') = Inr (Some (JNum (Finite 2))) \<and>
           getProp chunkedDocument (lit ''checksum'') = Inr (Some (JStr (lit ''1n1e4y'')))"
    by (simp add: chunkedDocument_def run_simps)
  have lb: "loopBound ?h (Some (JNum (Finite 2))) = Some 2"
    by (simp add: loopBound_def toNumeric_def)
  have idx: "[0..<2] = [0, 1]"
    by (simp add: upt_rec)
  from getPluginData_managed [OF m ne, of ?h] p
  have "getPluginData ?h (lit ''k'') chunkedWorld =
          (case loopBound ?h (Some (JNum (Finite 2))) of
             None \<Rightarrow> Inl (DataCorruptedError (lit ''k''))
           | Some n \<Rightarrow>
               if MAX_ARRAY_LENGTH < n then Inl (DataCorruptedError (lit ''k''))
               else
                 let chunks = map (\<lambda>i. node_getPluginData (node chunkedWorld) (calculateChunkKey (lit ''k'') i))
                                [0..<n]
                 in if [] \<in> set chunks then Inl (DataCorruptedError (lit ''k''))
                    else case decompress ?h (concat chunks) of
                           Inl e \<Rightarrow> Inl (DataCorruptedError (lit ''k''))
                         | Inr decompressed \<Rightarrow>
                             if validate decompressed (Some (JStr (lit ''1n1e4y'')))
                             then Inr (decodeValue ?h decompressed)
                             else Inl (DataCorruptedError (lit ''k'')))"
    by blast
  then have one: "getPluginData ?h (lit ''k'') chunkedWorld = Inr (JStr (lit ''hello''))"
    unfolding lb by (simp add: idx chunkedWorld_def chunkedDocument_def run_simps del: retrieveChunks.simps deleteChunks.simps)
  from getPluginData_managed [OF m' ne, of ?h] p
  have "getPluginData ?h (lit ''k'') ?w' =
          (case loopBound ?h (Some (JNum (Finite 2))) of
             None \<Rightarrow> Inl (DataCorruptedError (lit ''k''))
           | Some n \<Rightarrow>
               if MAX_ARRAY_LENGTH < n then Inl (DataCorruptedError (lit ''k''))
               else
                 let chunks = map (\<lambda>i. node_getPluginData (node ?w') (calculateChunkKey (lit ''k'') i))
                                [0..<n]
                 in if [] \<in> set chunks then Inl (DataCorruptedError (lit ''k''))
                    else case decompress ?h (concat chunks) of
                           Inl e \<Rightarrow> Inl (DataCorruptedError (lit ''k''))
                         | Inr decompressed \<Rightarrow>
                             if validate decompressed (Some (JStr (lit ''1n1e4y'')))
                             then Inr (decodeValue ?h decompressed)
                             else Inl (DataCorruptedError (lit ''k'')))"
    by blast
  then have two: "getPluginData ?h (lit ''k'') ?w' = Inl (DataCorruptedError (lit ''k''))"
    unfolding lb by (simp add: idx chunkedWorld_def chunkedDocument_def run_simps del: retrieveChunks.simps deleteChunks.simps)
  from one two show ?thesis
    by simp
qed

text \<open>
  C10. The claim as stated fails: \<open>JSON.stringify\<close> runs before the \<open>try\<close> block, so
  what it throws leaves \<open>setPluginData\<close> as it is. A \<open>BigInt\<close> is such a value.
\<close>

theorem setPluginData_errors_counterexample:
  "setPluginData (simHost []) (lit ''k'') (JBigInt 1) (emptyWorld (lit ''n1''))
     = (Inl NativeError, emptyWorld (lit ''n1''))"
  by (simp add: setPluginData_def serialize_def simHost_def startsWith_def lit_def)


text \<open>
  C10, amended. An exception that leaves \<open>setPluginData\<close> or \<open>setPluginDataAsync\<close> is
  an \<open>InvalidKeyError\<close>, a \<open>DataTooLargeError\<close>, a \<open>QuotaExceededError\<close>, an
  \<open>EntryTooLargeError\<close> or \<open>CompressionError('compress')\<close>, or it is the exception
  \<open>JSON.stringify\<close> threw on the value, which passes unchanged. Whatever else is
  thrown inside the \<open>try\<close> block (by a write to the node, by the serialization of the
  metadata, by the compressor) is replaced by \<open>CompressionError('compress')\<close>, and the
  state is left as it was when the exception arose.
\<close>

theorem setPluginData_errors:
  "(\<forall>e. fst (setPluginData h key v w) = Inl e \<or> fst (setPluginDataAsync h key v w) = Inl e \<longrightarrow>
      e = InvalidKeyError key \<or> (\<exists>n. e = DataTooLargeError n) \<or>
      (\<exists>n r. e = QuotaExceededError n r) \<or> (\<exists>s m. e = EntryTooLargeError s m) \<or>
      e = CompressionError compress_op \<or>
      (e = NativeError \<and> serialize h v = None)) \<and>
   (key \<noteq> [] \<and> \<not> startsWith key (lit ''__fpdu_'') \<and> serialize h v = None \<longrightarrow>
      setPluginData h key v w = (Inl NativeError, w) \<and>
      setPluginDataAsync h key v w = (Inl NativeError, w)) \<and>
   (\<forall>data e w'. key \<noteq> [] \<and> \<not> startsWith key (lit ''__fpdu_'') \<and> serialize h v = Some data \<and>
      blobSize h data \<le> MAX_DATA_SIZE \<and>
      (\<forall>n r. e \<noteq> QuotaExceededError n r) \<and> (\<forall>s m. e \<noteq> EntryTooLargeError s m) \<longrightarrow>
      (setPluginDataTry h key data w = (Inl e, w') \<longrightarrow>
         setPluginData h key v w = (Inl (CompressionError compress_op), w')) \<and>
      (setPluginDataAsyncTry h key data w = (Inl e, w') \<longrightarrow>
         setPluginDataAsync h key v w = (Inl (CompressionError compress_op), w')))"
proof (intro conjI allI impI)
  fix e
  assume "fst (setPluginData h key v w) = Inl e \<or> fst (setPluginDataAsync h key v w) = Inl e"
  then show "e = InvalidKeyError key \<or> (\<exists>n. e = DataTooLargeError n) \<or>
      (\<exists>n r. e = QuotaExceededError n r) \<or> (\<exists>s m. e = EntryTooLargeError s m) \<or>
      e = CompressionError compress_op \<or> (e = NativeError \<and> serialize h v = None)"
    using rethrowWrite_kinds
    by (auto simp: setPluginData_def setPluginDataAsync_def Let_def
        split: if_splits option.splits prod.splits sum.splits)
next
  assume "key \<noteq> [] \<and> \<not> startsWith key (lit ''__fpdu_'') \<and> serialize h v = None"
  then show "setPluginData h key v w = (Inl NativeError, w)"
    and "setPluginDataAsync h key v w = (Inl NativeError, w)"
    by (simp_all add: setPluginData_def setPluginDataAsync_def)
next
  fix data e w'
  assume a: "key \<noteq> [] \<and> \<not> startsWith key (lit ''__fpdu_'') \<and> serialize h v = Some data \<and>
      blobSize h data \<le> MAX_DATA_SIZE \<and>
      (\<forall>n r. e \<noteq> QuotaExceededError n r) \<and> (\<forall>s m. e \<noteq> EntryTooLargeError s m)"
  then have r: "rethrowWrite e = CompressionError compress_op"
    by (simp add: rethrowWrite_other)
  { assume "setPluginDataTry h key data w = (Inl e, w')"
    with a r show "setPluginData h key v w = (Inl (CompressionError compress_op), w')"
      by (simp add: setPluginData_def) }
  { assume "setPluginDataAsyncTry h key data w = (Inl e, w')"
    with a r show "setPluginDataAsync h key v w = (Inl (CompressionError compress_op), w')"
      by (simp add: setPluginDataAsync_def) }
qed


text \<open>
  On the crowded node the write of the metadata record runs into the node's limit; the
  node's \<open>Error\<close> is replaced, and both records stay written.
\<close>

theorem setPluginData_errors_witness:
  \<open>setPluginDataTry (simHost []) (lit ''k'') (lit ''hello'') crowdedWorld
     = (Inl NativeError,
        crowdedWorld\<lparr>node := (node crowdedWorld)
          \<lparr>storage := storage (node crowdedWorld) @
             [(lit ''k'', lit ''hello''),
              (lit ''__fpdu_meta_k'', lit ''{"compressed":true,"checksum":"1n1e4y","size":5}'')],
           nodeUsage := 1048623\<rparr>\<rparr>) \<and>
   setPluginData (simHost []) (lit ''k'') (JStr (lit ''hello'')) crowdedWorld
     = (Inl (CompressionError compress_op),
        crowdedWorld\<lparr>node := (node crowdedWorld)
          \<lparr>storage := storage (node crowdedWorld) @
             [(lit ''k'', lit ''hello''),
              (lit ''__fpdu_meta_k'', lit ''{"compressed":true,"checksum":"1n1e4y","size":5}'')],
           nodeUsage := 1048623\<rparr>\<rparr>)\<close>
proof -
  let ?w' = \<open>crowdedWorld\<lparr>node := (node crowdedWorld)
          \<lparr>storage := storage (node crowdedWorld) @
             [(lit ''k'', lit ''hello''),
              (lit ''__fpdu_meta_k'', lit ''{"compressed":true,"checksum":"1n1e4y","size":5}'')],
           nodeUsage := 1048623\<rparr>\<rparr>\<close>
  have t: "setPluginDataTry (simHost []) (lit ''k'') (lit ''hello'') crowdedWorld = (Inl NativeError, ?w')"
    by (simp add: crowdedWorld_def run_simps)
  have a: "lit ''k'' \<noteq> [] \<and> \<not> startsWith (lit ''k'') (lit ''__fpdu_'') \<and>
           serialize (simHost []) (JStr (lit ''hello'')) = Some (lit ''hello'') \<and>
           blobSize (simHost []) (lit ''hello'') \<le> MAX_DATA_SIZE \<and>
           (\<forall>n r. NativeError \<noteq> QuotaExceededError n r) \<and>
           (\<forall>s m. NativeError \<noteq> EntryTooLargeError s m)"
    by (simp add: run_simps)
  from setPluginData_errors [of "simHost []" "lit ''k''" "JStr (lit ''hello'')" crowdedWorld] a t
  have "setPluginData (simHost []) (lit ''k'') (JStr (lit ''hello'')) crowdedWorld
          = (Inl (CompressionError compress_op), ?w')"
    by blast
  with t show ?thesis
    by simp
qed

text \<open>
  C2. The code does not do what the claim says when the metadata text does not parse:
  \<open>JSON.parse\<close> throws inside the \<open>try\<close> block, the empty \<open>catch\<close> ends the block,
  and the statement that erases the metadata record, which stands after the parse in the
  same block, never runs. The record under the key and the quota entry are erased, the
  metadata record stays, and the key reads as corrupted from then on.
\<close>

theorem deletePluginData_keeps_unparsable_metadata:
  "deletePluginData (simHost []) (lit ''corrupt'') corruptedWorld
     = Some (Inr (), \<lparr>node = \<lparr>node_id = lit ''n1'',
                              storage = [(lit ''__fpdu_meta_corrupt'', lit ''invalid json'')],
                              nodeUsage = 5\<rparr>,
                      usage = []\<rparr>) \<and>
   getPluginData (simHost []) (lit ''corrupt'')
       (snd (the (deletePluginData (simHost []) (lit ''corrupt'') corruptedWorld)))
     = Inl (DataCorruptedError (lit ''corrupt''))"
  by (simp add: corruptedWorld_def run_simps)

text \<open>
  C7. The claim as stated fails in four ways. The last write of \<open>deletePluginData\<close>
  stands outside the \<open>try\<close> block, and the node refuses a write whose key alone exceeds
  the entry limit: the call throws. It throws as well on a node that a failed write has
  left above its byte limit, for the node checks the limit at every write. A metadata
  record whose \<open>totalChunks\<close> is \<open>Infinity\<close> sends the call into a loop that never
  ends. And the node of the test suite lowers its byte count by the length of the key at
  every deletion, also when there is nothing to delete: deleting a key that was never
  stored changes the node, and deleting it again changes the node again.
\<close>

theorem deletePluginData_twice_counterexample:
  "deletePluginData (simHost []) (replicate 102401 120) (emptyWorld (lit ''n1''))
     = Some (Inl NativeError, emptyWorld (lit ''n1'')) \<and>
   map_option fst
     (deletePluginData (simHost []) (lit ''other'')
        (snd (setPluginData (simHost []) (lit ''k'') (JStr (lit ''hello'')) crowdedWorld)))
     = Some (Inl NativeError) \<and>
   deletePluginData endlessHost (lit ''k'') endlessWorld = None \<and>
   deletePluginData (simHost []) (lit ''other'') (emptyWorld (lit ''n1''))
     = Some (Inr (), \<lparr>node = \<lparr>node_id = lit ''n1'', storage = [], nodeUsage = - 5\<rparr>, usage = []\<rparr>) \<and>
   deletePluginData (simHost []) (lit ''other'')
       \<lparr>node = \<lparr>node_id = lit ''n1'', storage = [], nodeUsage = - 5\<rparr>, usage = []\<rparr>
     = Some (Inr (), \<lparr>node = \<lparr>node_id = lit ''n1'', storage = [], nodeUsage = - 10\<rparr>, usage = []\<rparr>)"
proof -
  have long: "deletePluginData (simHost []) (replicate 102401 120) (emptyWorld (lit ''n1''))
                = Some (Inl NativeError, emptyWorld (lit ''n1''))"
    by (simp add: deletePluginData_def node_getPluginData_def node_setPluginData_def emptyWorld_def)
  have full: "map_option fst
     (deletePluginData (simHost []) (lit ''other'')
        (snd (setPluginData (simHost []) (lit ''k'') (JStr (lit ''hello'')) crowdedWorld)))
     = Some (Inl NativeError)"
    by (simp add: crowdedWorld_def run_simps)
  have \<open>endless endlessHost (lit ''{"chunked":true,"totalChunks":1e999}'')\<close>
    by (simp add: endless_def endlessHost_def loopBound_def toNumeric_def getProp_def truthy_def lit_def)
  moreover have "shortKey (calculateChunkKey (lit ''k'') (2 ^ 53))"
    by (simp add: shortKey_def calculateChunkKey_def numberToString_def toStringRadix.simps lit_def)
  ultimately have never: "deletePluginData endlessHost (lit ''k'') endlessWorld = None"
    by (simp add: deleteManaged_endless endlessWorld_def deletePluginData_def
        node_getPluginData_def metadataKeyOf_def lit_def)
  have once: "deletePluginData (simHost []) (lit ''other'') (emptyWorld (lit ''n1''))
     = Some (Inr (), \<lparr>node = \<lparr>node_id = lit ''n1'', storage = [], nodeUsage = - 5\<rparr>, usage = []\<rparr>)"
    by (simp add: run_simps)
  have twice: "deletePluginData (simHost []) (lit ''other'')
       \<lparr>node = \<lparr>node_id = lit ''n1'', storage = [], nodeUsage = - 5\<rparr>, usage = []\<rparr>
     = Some (Inr (), \<lparr>node = \<lparr>node_id = lit ''n1'', storage = [], nodeUsage = - 10\<rparr>, usage = []\<rparr>)"
    by (simp add: run_simps)
  from long full never once twice show ?thesis
    by simp
qed


text \<open>
  C7, amended. Take a key of at most \<open>100 * 1024\<close> code units and a node whose byte
  count is within its limit. When the metadata record of the key sets the loop a
  condition that never fails, and the chunk key of the index \<open>2^53\<close>, the last one the
  counter reaches, is within the entry limit, \<open>deletePluginData\<close> does not return.
  When the metadata record sets no such condition, \<open>deletePluginData\<close> returns without
  throwing, the first time and the second. The second deletion leaves the records of the
  node and the quota table as the first left them, \<open>getPluginDataKeys\<close> returns the
  same list, and the byte count of the node does not grow. Deleting a key that has no
  record, no metadata record and no quota entry changes neither the records nor the
  table (whose rows are never empty), and lowers the byte count by the length of the key.
\<close>

theorem deletePluginData_twice:
  assumes "length key \<le> 100 * 1024" and "nodeUsage (node w) \<le> 1024 * 1024"
  shows "(endless h (node_getPluginData (node w) (metadataKeyOf key)) \<and>
          shortKey (calculateChunkKey key (2 ^ 53))
          \<longrightarrow> deletePluginData h key w = None) \<and>
         (\<not> endless h (node_getPluginData (node w) (metadataKeyOf key))
          \<longrightarrow> (\<exists>w1 w2.
                 deletePluginData h key w = Some (Inr (), w1) \<and>
                 deletePluginData h key w1 = Some (Inr (), w2) \<and>
                 node_id (node w1) = node_id (node w) \<and>
                 nodeUsage (node w1) \<le> nodeUsage (node w) \<and>
                 node_id (node w2) = node_id (node w1) \<and>
                 storage (node w2) = storage (node w1) \<and>
                 nodeUsage (node w2) \<le> nodeUsage (node w1) \<and>
                 usage w2 = usage w1 \<and>
                 getPluginDataKeys w2 = getPluginDataKeys w1 \<and>
                 (key \<notin> fst ` set (storage (node w)) \<and>
                  metadataKeyOf key \<notin> fst ` set (storage (node w)) \<and>
                  (\<forall>row. map_of (usage w) (node_id (node w)) = Some row \<longrightarrow>
                     row \<noteq> [] \<and> key \<notin> fst ` set row)
                  \<longrightarrow> storage (node w1) = storage (node w) \<and>
                      nodeUsage (node w1) = nodeUsage (node w) - int (length key) \<and>
                      usage w1 = usage w)))"
proof (intro conjI impI)
  assume "endless h (node_getPluginData (node w) (metadataKeyOf key)) \<and>
          shortKey (calculateChunkKey key (2 ^ 53))"
  then have e: "endless h (node_getPluginData (node w) (metadataKeyOf key))"
    and sk: "shortKey (calculateChunkKey key (2 ^ 53))"
    by simp_all
  from e have "node_getPluginData (node w) (metadataKeyOf key) \<noteq> []"
    by (simp add: endless_def)
  with deleteManaged_endless [OF e sk assms(2)] show "deletePluginData h key w = None"
    by (simp add: deletePluginData_def)
next
  assume bounded: "\<not> endless h (node_getPluginData (node w) (metadataKeyOf key))"
  let ?mk = "metadataKeyOf key"
  let ?S = "storage (node w)"
  define K0 where "K0 = insert key (if node_getPluginData (node w) ?mk = [] then {}
                           else managedErased h key (node_getPluginData (node w) ?mk))"
  have short: "shortKey key"
    using assms(1) by (simp add: shortKey_def)
  from deletePluginData_erased [OF assms(2) short bounded] obtain u1
    where u1: "u1 \<le> nodeUsage (node w)"
      and d1: "deletePluginData h key w =
           Some (Inr (), \<lparr>node = (node w)\<lparr>storage := filter (\<lambda>p. fst p \<notin> K0) ?S, nodeUsage := u1\<rparr>,
                          usage = removeUsage (usage w) (node_id (node w)) key\<rparr>)"
    by (auto simp: K0_def)
  let ?w1 = "\<lparr>node = (node w)\<lparr>storage := filter (\<lambda>p. fst p \<notin> K0) ?S, nodeUsage := u1\<rparr>,
              usage = removeUsage (usage w) (node_id (node w)) key\<rparr>"
  define K1 where "K1 = insert key (if node_getPluginData (node ?w1) ?mk = [] then {}
                           else managedErased h key (node_getPluginData (node ?w1) ?mk))"
  have m1: "node_getPluginData (node ?w1) ?mk =
              (if ?mk \<in> K0 then [] else node_getPluginData (node w) ?mk)"
    by (simp add: node_getPluginData_def map_of_filter_keys)
  have e1: "\<not> endless h (node_getPluginData (node ?w1) ?mk)"
    unfolding m1 using bounded by (simp add: endless_def)
  from u1 assms(2) have "nodeUsage (node ?w1) \<le> 1024 * 1024"
    by simp
  from deletePluginData_erased [OF this short e1] obtain u2
    where u2: "u2 \<le> u1"
      and d2: "deletePluginData h key ?w1 =
           Some (Inr (), \<lparr>node = (node ?w1)\<lparr>storage := filter (\<lambda>p. fst p \<notin> K1) (storage (node ?w1)),
                                            nodeUsage := u2\<rparr>,
                          usage = removeUsage (usage ?w1) (node_id (node ?w1)) key\<rparr>)"
    by (auto simp: K1_def)
  let ?w2 = "\<lparr>node = (node ?w1)\<lparr>storage := filter (\<lambda>p. fst p \<notin> K1) (storage (node ?w1)),
                                nodeUsage := u2\<rparr>,
              usage = removeUsage (usage ?w1) (node_id (node ?w1)) key\<rparr>"
  have sub: "K1 \<subseteq> K0"
    unfolding K1_def m1 by (auto simp: K0_def)
  then have s2: "filter (\<lambda>p. fst p \<notin> K1) (filter (\<lambda>p. fst p \<notin> K0) ?S) = filter (\<lambda>p. fst p \<notin> K0) ?S"
    by (auto intro: filter_cong)
  have never: "storage (node ?w1) = ?S \<and>
               nodeUsage (node ?w1) = nodeUsage (node w) - int (length key) \<and>
               usage ?w1 = usage w"
    if n: "key \<notin> fst ` set ?S \<and> ?mk \<notin> fst ` set ?S \<and>
           (\<forall>row. map_of (usage w) (node_id (node w)) = Some row \<longrightarrow> row \<noteq> [] \<and> key \<notin> fst ` set row)"
  proof -
    from n have nm: "map_of ?S ?mk = None" and nk: "map_of ?S key = None"
      by (simp_all add: map_of_eq_None_iff)
    from nm have "K0 = {key}"
      by (simp add: K0_def node_getPluginData_def)
    with n have st: "filter (\<lambda>p. fst p \<notin> K0) ?S = ?S"
      by (auto intro!: filter_True)
    from nm nk assms(1,2)
    have "deletePluginData h key w =
            Some (Inr (), \<lparr>node = (node w)\<lparr>storage := AList.delete key ?S,
                                          nodeUsage := nodeUsage (node w) - int (length key)\<rparr>,
                           usage = removeUsage (usage w) (node_id (node w)) key\<rparr>)"
      by (simp add: deletePluginData_def node_getPluginData_def node_setPluginData_def Let_def)
    then have "nodeUsage (node (snd (the (deletePluginData h key w))))
                 = nodeUsage (node w) - int (length key)"
      by simp
    moreover from d1 have "nodeUsage (node (snd (the (deletePluginData h key w)))) = u1"
      by simp
    ultimately have "u1 = nodeUsage (node w) - int (length key)"
      by simp
    with st n show ?thesis
      by (simp add: removeUsage_absent)
  qed
  have "deletePluginData h key w = Some (Inr (), ?w1) \<and>
        deletePluginData h key ?w1 = Some (Inr (), ?w2) \<and>
        node_id (node ?w1) = node_id (node w) \<and>
        nodeUsage (node ?w1) \<le> nodeUsage (node w) \<and>
        node_id (node ?w2) = node_id (node ?w1) \<and>
        storage (node ?w2) = storage (node ?w1) \<and>
        nodeUsage (node ?w2) \<le> nodeUsage (node ?w1) \<and>
        usage ?w2 = usage ?w1 \<and>
        getPluginDataKeys ?w2 = getPluginDataKeys ?w1 \<and>
        (key \<notin> fst ` set ?S \<and> ?mk \<notin> fst ` set ?S \<and>
         (\<forall>row. map_of (usage w) (node_id (node w)) = Some row \<longrightarrow> row \<noteq> [] \<and> key \<notin> fst ` set row)
         \<longrightarrow> storage (node ?w1) = ?S \<and>
             nodeUsage (node ?w1) = nodeUsage (node w) - int (length key) \<and>
             usage ?w1 = usage w)"
    using d1 d2 s2 u1 u2 never
    by (simp add: removeUsage_idem getPluginDataKeys_def node_getPluginDataKeys_def)
  then show "\<exists>w1 w2.
                 deletePluginData h key w = Some (Inr (), w1) \<and>
                 deletePluginData h key w1 = Some (Inr (), w2) \<and>
                 node_id (node w1) = node_id (node w) \<and>
                 nodeUsage (node w1) \<le> nodeUsage (node w) \<and>
                 node_id (node w2) = node_id (node w1) \<and>
                 storage (node w2) = storage (node w1) \<and>
                 nodeUsage (node w2) \<le> nodeUsage (node w1) \<and>
                 usage w2 = usage w1 \<and>
                 getPluginDataKeys w2 = getPluginDataKeys w1 \<and>
                 (key \<notin> fst ` set (storage (node w)) \<and>
                  metadataKeyOf key \<notin> fst ` set (storage (node w)) \<and>
                  (\<forall>row. map_of (usage w) (node_id (node w)) = Some row \<longrightarrow>
                     row \<noteq> [] \<and> key \<notin> fst ` set row)
                  \<longrightarrow> storage (node w1) = storage (node w) \<and>
                      nodeUsage (node w1) = nodeUsage (node w) - int (length key) \<and>
                      usage w1 = usage w)"
    by blast
qed


text \<open>
  Deleting the chunked key \<open>k\<close> empties the node and the table, and a second deletion
  finds nothing to erase (the byte count of the test node drops below zero, since it
  subtracts the key length also for a record that is not there); deleting the key
  \<open>other\<close>, which was never stored, changes nothing of the records and the table; and
  with the metadata record that reads \<open>Infinity\<close> the deletion of \<open>k\<close> does not
  return.
\<close>

theorem deletePluginData_twice_witness:
  "deletePluginData (simHost [chunkedDocument]) (lit ''k'') chunkedWorld
     = Some (Inr (), \<lparr>node = \<lparr>node_id = lit ''n1'', storage = [], nodeUsage = - 46\<rparr>, usage = []\<rparr>) \<and>
   deletePluginData (simHost [chunkedDocument]) (lit ''k'')
       \<lparr>node = \<lparr>node_id = lit ''n1'', storage = [], nodeUsage = - 46\<rparr>, usage = []\<rparr>
     = Some (Inr (), \<lparr>node = \<lparr>node_id = lit ''n1'', storage = [], nodeUsage = - 47\<rparr>, usage = []\<rparr>) \<and>
   deletePluginData (simHost [chunkedDocument]) (lit ''other'') chunkedWorld
     = Some (Inr (), chunkedWorld\<lparr>node := (node chunkedWorld)\<lparr>nodeUsage := 79\<rparr>\<rparr>) \<and>
   endless endlessHost (node_getPluginData (node endlessWorld) (metadataKeyOf (lit ''k''))) \<and>
   deletePluginData endlessHost (lit ''k'') endlessWorld = None"
proof -
  let ?h = "simHost [chunkedDocument]"
  let ?w1 = "\<lparr>node = \<lparr>node_id = lit ''n1'', storage = [], nodeUsage = - 46\<rparr>, usage = []\<rparr>"
  have k: "length (lit ''k'') \<le> 100 * 1024" "length (lit ''other'') \<le> 100 * 1024"
    and n: "nodeUsage (node chunkedWorld) \<le> 1024 * 1024"
    and n': "nodeUsage (node endlessWorld) \<le> 1024 * 1024"
    by (simp_all add: lit_def chunkedWorld_def endlessWorld_def)
  have e: "\<not> endless ?h (node_getPluginData (node chunkedWorld) (metadataKeyOf (lit ''k'')))"
    "\<not> endless ?h (node_getPluginData (node chunkedWorld) (metadataKeyOf (lit ''other'')))"
    by (simp_all add: endless_def chunkedWorld_def chunkedDocument_def run_simps)
  have d1: "deletePluginData ?h (lit ''k'') chunkedWorld = Some (Inr (), ?w1)"
    by (simp add: chunkedWorld_def chunkedDocument_def run_simps)
  have o: "lit ''other'' \<notin> fst ` set (storage (node chunkedWorld)) \<and>
           metadataKeyOf (lit ''other'') \<notin> fst ` set (storage (node chunkedWorld)) \<and>
           (\<forall>row. map_of (usage chunkedWorld) (node_id (node chunkedWorld)) = Some row
              \<longrightarrow> row \<noteq> [] \<and> lit ''other'' \<notin> fst ` set row)"
    by (simp add: chunkedWorld_def run_simps)
  from deletePluginData_twice [OF k(1) n, of ?h] e(1) d1
  obtain w2 where "deletePluginData ?h (lit ''k'') ?w1 = Some (Inr (), w2)"
    and "node_id (node w2) = lit ''n1''" and "storage (node w2) = []" and "usage w2 = []"
    by auto
  moreover have "deletePluginData ?h (lit ''k'') ?w1
     = Some (Inr (), \<lparr>node = \<lparr>node_id = lit ''n1'', storage = [], nodeUsage = - 47\<rparr>, usage = []\<rparr>)"
    by (simp add: run_simps)
  moreover from deletePluginData_twice [OF k(2) n, of ?h] e(2) o
  obtain w1' where "deletePluginData ?h (lit ''other'') chunkedWorld = Some (Inr (), w1')"
    and "node_id (node w1') = node_id (node chunkedWorld)"
    and "storage (node w1') = storage (node chunkedWorld)"
    and "nodeUsage (node w1') = nodeUsage (node chunkedWorld) - int (length (lit ''other''))"
    and "usage w1' = usage chunkedWorld"
    by auto
  then have "deletePluginData ?h (lit ''other'') chunkedWorld
     = Some (Inr (), chunkedWorld\<lparr>node := (node chunkedWorld)\<lparr>nodeUsage := 79\<rparr>\<rparr>)"
    by (simp add: chunkedWorld_def lit_def)
  moreover have el: "endless endlessHost (node_getPluginData (node endlessWorld) (metadataKeyOf (lit ''k'')))"
    by (simp add: endless_def endlessHost_def endlessWorld_def loopBound_def toNumeric_def
        node_getPluginData_def metadataKeyOf_def getProp_def truthy_def lit_def)
  moreover have "shortKey (calculateChunkKey (lit ''k'') (2 ^ 53))"
    by (simp add: shortKey_def calculateChunkKey_def numberToString_def toStringRadix.simps lit_def)
  with deletePluginData_twice [OF k(1) n', of endlessHost] el
  have "deletePluginData endlessHost (lit ''k'') endlessWorld = None"
    by blast
  ultimately show ?thesis
    using d1 by simp
qed

text \<open>
  C1. The claim as stated fails for a string that is itself JSON text: the read path
  cannot tell it from a serialized value and returns what \<open>JSON.parse\<close> makes of it.
  Storing the string \<open>123\<close> succeeds, and reading it back gives the number 123.
\<close>

theorem setPluginData_round_trip_counterexample:
  \<open>setPluginData (simHost [singleMetadata (simHost []) (lit ''123''), JNum (Finite 123)])
       (lit ''k'') (JStr (lit ''123'')) (emptyWorld (lit ''n1''))
     = (Inr (), \<lparr>node = \<lparr>node_id = lit ''n1'',
                         storage = [(lit ''k'', lit ''123''),
                                    (lit ''__fpdu_meta_k'',
                                     lit ''{"compressed":true,"checksum":"11ki","size":3}'')],
                         nodeUsage = 49\<rparr>,
                 usage = [(lit ''n1'', [(lit ''k'', 62)])]\<rparr>) \<and>
   getPluginData (simHost [singleMetadata (simHost []) (lit ''123''), JNum (Finite 123)]) (lit ''k'')
       (snd (setPluginData (simHost [singleMetadata (simHost []) (lit ''123''), JNum (Finite 123)])
               (lit ''k'') (JStr (lit ''123'')) (emptyWorld (lit ''n1''))))
     = Inr (JNum (Finite 123))\<close>
  by (simp add: run_simps)

text \<open>
  C1, amended. After a successful \<open>setPluginData(K, V)\<close>, on a platform where
  \<open>decompress\<close> gives back the serialized text from its compressed form and the
  metadata text parses back to the metadata, \<open>getPluginData(K)\<close> returns
  \<open>JSON.parse\<close> of the serialized text when that text parses, and the text itself
  otherwise, in the single-record and in the chunked layout. So it returns \<open>V\<close> when
  the serialized text parses back to \<open>V\<close>, and when \<open>V\<close> is a string that is not JSON
  text (the empty string is one).
\<close>

theorem setPluginData_round_trip:
  assumes ok: "setPluginData h key v w = (Inr (), w')"
    and ser: "serialize h v = Some data"
    and tr: "\<forall>c. compress h data = Inr c \<longrightarrow> decompress h c = Inr data"
    and js: "\<forall>c ms. compress h data = Inr c \<longrightarrow>
               (JSON_stringify h (singleMetadata h data) = Some ms \<longrightarrow>
                  ms \<noteq> [] \<and> JSON_parse h ms = Some (singleMetadata h data)) \<and>
               (JSON_stringify h (chunkedMetadata h (chunk c) data) = Some ms \<longrightarrow>
                  ms \<noteq> [] \<and> JSON_parse h ms = Some (chunkedMetadata h (chunk c) data))"
  shows "getPluginData h key w' = Inr (decodeValue h data) \<and>
         (JSON_parse h data = Some v \<longrightarrow> getPluginData h key w' = Inr v) \<and>
         (JSON_parse h data = None \<and> v = JStr data \<longrightarrow> getPluginData h key w' = Inr v)"
proof -
  from ok ser have t: "setPluginDataTry h key data w = (Inr (), w')"
    by (auto simp: setPluginData_def Let_def split: if_splits prod.splits sum.splits)
  then obtain c w1 where c: "compress h data = Inr c"
    and q: "canStore (usage w) (length c + 200)"
    and st: "(if int (length c) > getSafeChunkSize key
              then storeChunked h key c data w1 else storeSingle h key c data w1) = (Inr (), w')"
    by (auto simp: setPluginDataTry_def Let_def split: sum.splits if_splits)
  from q chunk_count [of c] have few: "length (chunk c) \<le> MAX_ARRAY_LENGTH"
    by (simp add: canStore_def MAX_TOTAL_QUOTA_def MAX_ARRAY_LENGTH_def)
  from tr c have de: "decompress h c = Inr data"
    by simp
  have "getPluginData h key w' = Inr (decodeValue h data)"
  proof (cases "int (length c) > getSafeChunkSize key")
    case True
    with st have "storeChunked h key c data w1 = (Inr (), w')"
      by simp
    then show ?thesis
      using de js c few by (intro storeChunked_read) auto
  next
    case False
    with st have "storeSingle h key c data w1 = (Inr (), w')"
      by simp
    then show ?thesis
      using de js c by (intro storeSingle_read) auto
  qed
  then show ?thesis
    by (auto simp: decodeValue_def)
qed


text \<open>
  The string \<open>hello world\<close> and the object \<open>{name: 'test', value: 42}\<close> read back as
  they were stored.
\<close>

theorem setPluginData_round_trip_witness:
  \<open>getPluginData (simHost [singleMetadata (simHost []) (lit ''hello world''),
                           chunkedMetadata (simHost []) [lit ''hello world''] (lit ''hello world'')])
       (lit ''test'')
       (snd (setPluginData
               (simHost [singleMetadata (simHost []) (lit ''hello world''),
                         chunkedMetadata (simHost []) [lit ''hello world''] (lit ''hello world'')])
               (lit ''test'') (JStr (lit ''hello world'')) (emptyWorld (lit ''n1''))))
     = Inr (JStr (lit ''hello world'')) \<and>
   getPluginData (simHost [singleMetadata (simHost []) (lit ''{"name":"test","value":42}''),
                           chunkedMetadata (simHost []) [lit ''{"name":"test","value":42}'']
                             (lit ''{"name":"test","value":42}''),
                           JObj [(lit ''name'', JStr (lit ''test'')), (lit ''value'', JNum (Finite 42))]])
       (lit ''object'')
       (snd (setPluginData
               (simHost [singleMetadata (simHost []) (lit ''{"name":"test","value":42}''),
                         chunkedMetadata (simHost []) [lit ''{"name":"test","value":42}'']
                           (lit ''{"name":"test","value":42}''),
                         JObj [(lit ''name'', JStr (lit ''test'')), (lit ''value'', JNum (Finite 42))]])
               (lit ''object'')
               (JObj [(lit ''name'', JStr (lit ''test'')), (lit ''value'', JNum (Finite 42))])
               (emptyWorld (lit ''n1''))))
     = Inr (JObj [(lit ''name'', JStr (lit ''test'')), (lit ''value'', JNum (Finite 42))])\<close>
proof -
  have one: "getPluginData (simHost [singleMetadata (simHost []) data, chunkedMetadata (simHost []) [data] data, v])
               key
               (snd (setPluginData
                       (simHost [singleMetadata (simHost []) data, chunkedMetadata (simHost []) [data] data, v])
                       key v (emptyWorld (lit ''n1''))))
             = Inr v"
    if ok: "fst (setPluginData
                   (simHost [singleMetadata (simHost []) data, chunkedMetadata (simHost []) [data] data, v])
                   key v (emptyWorld (lit ''n1''))) = Inr ()"
      and ser: "serialize (simHost [singleMetadata (simHost []) data, chunkedMetadata (simHost []) [data] data, v]) v
                  = Some data"
      and c: "compress (simHost [singleMetadata (simHost []) data, chunkedMetadata (simHost []) [data] data, v]) data
                = Inr data"
      and d: "decompress (simHost [singleMetadata (simHost []) data, chunkedMetadata (simHost []) [data] data, v]) data
                = Inr data"
      and ch: "chunk data = [data]"
      and js: "simParse [singleMetadata (simHost []) data, chunkedMetadata (simHost []) [data] data, v]
                 (the (simStringify (singleMetadata (simHost []) data)))
                 = Some (singleMetadata (simHost []) data)"
              "simParse [singleMetadata (simHost []) data, chunkedMetadata (simHost []) [data] data, v]
                 (the (simStringify (chunkedMetadata (simHost []) [data] data)))
                 = Some (chunkedMetadata (simHost []) [data] data)"
              "the (simStringify (singleMetadata (simHost []) data)) \<noteq> []"
              "the (simStringify (chunkedMetadata (simHost []) [data] data)) \<noteq> []"
              "simStringify (singleMetadata (simHost []) data) \<noteq> None"
              "simStringify (chunkedMetadata (simHost []) [data] data) \<noteq> None"
      and p: "decodeValue (simHost [singleMetadata (simHost []) data, chunkedMetadata (simHost []) [data] data, v]) data
                = v"
    for data key v
  proof -
    let ?h = "simHost [singleMetadata (simHost []) data, chunkedMetadata (simHost []) [data] data, v]"
    have m: "singleMetadata ?h data = singleMetadata (simHost []) data"
      "chunkedMetadata ?h [data] data = chunkedMetadata (simHost []) [data] data"
      by (simp_all add: singleMetadata_def chunkedMetadata_def simHost_def)
    from ok obtain w' where ok': "setPluginData ?h key v (emptyWorld (lit ''n1'')) = (Inr (), w')"
      by (cases "setPluginData ?h key v (emptyWorld (lit ''n1''))") simp
    have tr: "\<forall>c. compress ?h data = Inr c \<longrightarrow> decompress ?h c = Inr data"
      unfolding c using d by simp
    have js': "\<forall>c ms. compress ?h data = Inr c \<longrightarrow>
               (JSON_stringify ?h (singleMetadata ?h data) = Some ms \<longrightarrow>
                  ms \<noteq> [] \<and> JSON_parse ?h ms = Some (singleMetadata ?h data)) \<and>
               (JSON_stringify ?h (chunkedMetadata ?h (chunk c) data) = Some ms \<longrightarrow>
                  ms \<noteq> [] \<and> JSON_parse ?h ms = Some (chunkedMetadata ?h (chunk c) data))"
      unfolding c using js by (auto simp: ch m) (auto simp: simHost_def)
    from setPluginData_round_trip [OF ok' ser tr js'] p ok' show ?thesis
      by simp
  qed
  have ch: "chunk (lit s) = [lit s]" if "s \<noteq> []" "length s \<le> 100" for s
    using that by (intro chunk_short) (simp_all add: lit_def CHUNK_SIZE_def)
  show ?thesis
    by (intro conjI one ch) (simp_all add: run_simps)
qed

text \<open>
  C9. The claim as stated fails on the crowded node for the key and the text above. The
  first chunk write runs into the node's limit. The direct form stops there and throws
  \<open>CompressionError\<close>. The suspending form has started all eleven chunks before it
  looks at a failure, the eleventh fails its size validation, and that rejection reaches
  \<open>Promise.all\<close> first: it throws \<open>EntryTooLargeError\<close>.
\<close>

theorem setPluginDataAsync_equivalent_counterexample:
  "fst (setPluginData (simHost []) bigKey (JStr bigData) crowdedWorld)
     = Inl (CompressionError compress_op) \<and>
   fst (setPluginDataAsync (simHost []) bigKey (JStr bigData) crowdedWorld)
     = Inl (EntryTooLargeError 102401 102400)"
  using big_sync big_async by simp

text \<open>
  C9, amended. Let the callback form of gzip hand over what \<open>gzipSync\<close> returns on the
  serialized text, and let nothing else run between the steps of the suspending form.
  Then \<open>setPluginData\<close> succeeds exactly when \<open>setPluginDataAsync\<close> does, and they
  leave the same node, record for record, and the same quota table. When both fail they
  throw the same error, with one exception: when a chunk write fails at the node and a
  later chunk is too large for an entry, the direct form stops at the write and throws
  \<open>CompressionError\<close>, and the suspending form, which has started every chunk by then,
  throws the \<open>EntryTooLargeError\<close> of the later chunk.
\<close>

theorem setPluginDataAsync_equivalent:
  assumes "\<forall>data. serialize h v = Some data \<longrightarrow>
             gzip h (textEncode h data) = gzipSync h (textEncode h data)"
  shows "(fst (setPluginData h key v w) = Inr () \<longleftrightarrow> fst (setPluginDataAsync h key v w) = Inr ()) \<and>
         (fst (setPluginData h key v w) = Inr () \<longrightarrow>
            setPluginDataAsync h key v w = setPluginData h key v w) \<and>
         (\<forall>e e'. fst (setPluginData h key v w) = Inl e \<and> fst (setPluginDataAsync h key v w) = Inl e' \<longrightarrow>
            e' = e \<or> (e = CompressionError compress_op \<and> (\<exists>a b. e' = EntryTooLargeError a b)))"
proof (cases "key = [] \<or> startsWith key (lit ''__fpdu_'')")
  case True
  then show ?thesis
    by (simp add: setPluginData_def setPluginDataAsync_def)
next
  case valid: False
  show ?thesis
  proof (cases "serialize h v")
    case None
    with valid show ?thesis
      by (simp add: setPluginData_def setPluginDataAsync_def)
  next
    case (Some data)
    with assms have "compressAsync h data = compress h data"
      by (simp add: compressAsync_def compress_def)
    note eq = setPluginDataAsyncTry_eq [OF this, of key w]
    show ?thesis
    proof (cases "blobSize h data > MAX_DATA_SIZE")
      case True
      with valid Some show ?thesis
        by (simp add: setPluginData_def setPluginDataAsync_def)
    next
      case False
      obtain r ws where s: "setPluginDataTry h key data w = (r, ws)"
        by (cases "setPluginDataTry h key data w")
      obtain r' wa where a: "setPluginDataAsyncTry h key data w = (r', wa)"
        by (cases "setPluginDataAsyncTry h key data w")
      have S: "setPluginData h key v w = (case r of Inl e \<Rightarrow> (Inl (rethrowWrite e), ws) | Inr u \<Rightarrow> (Inr u, ws))"
        and A: "setPluginDataAsync h key v w = (case r' of Inl e \<Rightarrow> (Inl (rethrowWrite e), wa) | Inr u \<Rightarrow> (Inr u, wa))"
        using valid Some False s a
        by (simp_all add: setPluginData_def setPluginDataAsync_def split: sum.splits)
      show ?thesis
      proof (cases r)
        case (Inr u)
        with eq s a have "r' = Inr ()" "wa = ws"
          by simp_all
        with S A Inr show ?thesis
          by simp
      next
        case (Inl e)
        with eq s a have "r' = Inl e \<or> (e = NativeError \<and> (\<exists>a b. r' = Inl (EntryTooLargeError a b)))"
          by simp
        with S A Inl show ?thesis
          by (auto simp: rethrowWrite_entry rethrowWrite_native)
      qed
    qed
  qed
qed

text \<open>
  Storing \<open>hello world\<close> on an empty node succeeds in the direct form, and the
  suspending form returns the same outcome and the same state.
\<close>

theorem setPluginDataAsync_equivalent_witness:
  "fst (setPluginData (simHost []) (lit ''test'') (JStr (lit ''hello world'')) (emptyWorld (lit ''n1'')))
     = Inr () \<and>
   setPluginDataAsync (simHost []) (lit ''test'') (JStr (lit ''hello world'')) (emptyWorld (lit ''n1''))
     = setPluginData (simHost []) (lit ''test'') (JStr (lit ''hello world'')) (emptyWorld (lit ''n1''))"
proof -
  have g: "\<forall>data. serialize (simHost []) (JStr (lit ''hello world'')) = Some data \<longrightarrow>
             gzip (simHost []) (textEncode (simHost []) data)
               = gzipSync (simHost []) (textEncode (simHost []) data)"
    by (simp add: simHost_def)
  have s: "fst (setPluginData (simHost []) (lit ''test'') (JStr (lit ''hello world'')) (emptyWorld (lit ''n1'')))
             = Inr ()"
    by (simp add: run_simps)
  from setPluginDataAsync_equivalent [OF g, of "lit ''test''" "emptyWorld (lit ''n1'')"] s
  show ?thesis
    by simp
qed

end
